theory Spec2Isabelle
  imports Complex_Main
begin

section \<open>Decoded JSON documents and the Python operations applied to them\<close>

text \<open>
  The report generator of \<^verbatim>\<open>scripts/generate-report.py\<close> reads scanner output with
  \<^verbatim>\<open>json.load\<close> and walks the decoded value with \<^verbatim>\<open>.get\<close>, subscripts, iteration and
  truth tests. None of these is guarded by a type check, so each of them can raise on a
  value of the wrong shape. The embedding keeps the decoded document as a value of type
  \<open>json\<close> and every such operation as a function into \<open>pyerr + 'a\<close>.

  A Python float is \<open>Finite q\<close> for a rational \<open>q\<close> (every finite double is one), an
  infinity, or \<open>NaN\<close>; \<^verbatim>\<open>json.load\<close> produces all of them. A \<open>JObj\<close> lists the
  entries of a decoded dict in insertion order; a decoded dict has no key twice, and
  nothing below relies on that.
\<close>

datatype pyfloat = Finite rat | PosInf | NegInf | NaN

datatype json =
    JNull
  | JBool bool
  | JInt int
  | JFloat pyfloat
  | JStr string
  | JArr "json list"
  | JObj "(string \<times> json) list"

datatype pyerr =
    DecodeError
  | AttributeError
  | TypeError
  | KeyError
  | IndexError
  | ValueError
  | OverflowError

text \<open>
  Functions of the Python runtime that the script calls and whose results depend on
  Unicode tables, on the float parser or on \<^verbatim>\<open>repr\<close> are parameters of the model:
  \<open>float_of_str s\<close> is \<^verbatim>\<open>float(s)\<close> for a string (\<open>None\<close>: ValueError),
  \<open>float_of_bigint n\<close> is \<^verbatim>\<open>float(n)\<close> for an integer beyond \<open>2 ^ 53\<close>
  (\<open>None\<close>: OverflowError), \<open>str_upper\<close> and \<open>str_lower\<close> are \<^verbatim>\<open>str.upper\<close> and
  \<^verbatim>\<open>str.lower\<close>, and \<open>str_of v\<close> is the text an f-string puts for the value \<open>v\<close>.
\<close>

record runtime =
  float_of_str :: "string \<Rightarrow> pyfloat option"
  float_of_bigint :: "int \<Rightarrow> pyfloat option"
  str_upper :: "string \<Rightarrow> string"
  str_lower :: "string \<Rightarrow> string"
  str_of :: "json \<Rightarrow> string"

definition bnd :: "pyerr + 'a \<Rightarrow> ('a \<Rightarrow> pyerr + 'b) \<Rightarrow> pyerr + 'b" where
  "bnd m f = (case m of Inl e \<Rightarrow> Inl e | Inr x \<Rightarrow> f x)"

text \<open>\<^verbatim>\<open>x.get(k, d)\<close>: only a dict has the method.\<close>

fun dict_get :: "json \<Rightarrow> string \<Rightarrow> json \<Rightarrow> pyerr + json" where
  "dict_get (JObj kvs) k d = Inr (case map_of kvs k of None \<Rightarrow> d | Some v \<Rightarrow> v)"
| "dict_get _ k d = Inl AttributeError"

text \<open>\<^verbatim>\<open>x[k]\<close> for a string \<open>k\<close>.\<close>

fun subscript_key :: "json \<Rightarrow> string \<Rightarrow> pyerr + json" where
  "subscript_key (JObj kvs) k = (case map_of kvs k of None \<Rightarrow> Inl KeyError | Some v \<Rightarrow> Inr v)"
| "subscript_key _ k = Inl TypeError"

text \<open>\<^verbatim>\<open>for x in v\<close>: a list gives its elements, a dict its keys, a string its characters.\<close>

fun py_iter :: "json \<Rightarrow> pyerr + json list" where
  "py_iter (JArr xs) = Inr xs"
| "py_iter (JObj kvs) = Inr (map (\<lambda>kv. JStr (fst kv)) kvs)"
| "py_iter (JStr s) = Inr (map (\<lambda>c. JStr [c]) s)"
| "py_iter _ = Inl TypeError"

text \<open>The truth value of \<^verbatim>\<open>if v:\<close>.\<close>

fun truthy :: "json \<Rightarrow> bool" where
  "truthy JNull = False"
| "truthy (JBool b) = b"
| "truthy (JInt n) = (n \<noteq> 0)"
| "truthy (JFloat f) = (f \<noteq> Finite 0)"
| "truthy (JStr s) = (s \<noteq> [])"
| "truthy (JArr xs) = (xs \<noteq> [])"
| "truthy (JObj kvs) = (kvs \<noteq> [])"

text \<open>\<^verbatim>\<open>v[0]\<close>.\<close>

fun index0 :: "json \<Rightarrow> pyerr + json" where
  "index0 (JArr []) = Inl IndexError"
| "index0 (JArr (x # xs)) = Inr x"
| "index0 (JStr []) = Inl IndexError"
| "index0 (JStr (c # cs)) = Inr (JStr [c])"
| "index0 (JObj kvs) = Inl KeyError"
| "index0 _ = Inl TypeError"

text \<open>
  \<^verbatim>\<open>v[:n]\<close>: lists and strings can be sliced. A dict raises TypeError before Python 3.12
  and KeyError from 3.12 on; no statement below depends on which.
\<close>

fun slice_to :: "nat \<Rightarrow> json \<Rightarrow> pyerr + json" where
  "slice_to n (JArr xs) = Inr (JArr (take n xs))"
| "slice_to n (JStr s) = Inr (JStr (take n s))"
| "slice_to n _ = Inl TypeError"

fun startswith :: "string \<Rightarrow> string \<Rightarrow> bool" where
  "startswith s [] = True"
| "startswith [] (p # ps) = False"
| "startswith (c # cs) (p # ps) = (c = p \<and> startswith cs ps)"

text \<open>\<^verbatim>\<open>p in s\<close> for two strings: \<open>p\<close> occurs in \<open>s\<close> as a contiguous run.\<close>

fun str_contains :: "string \<Rightarrow> string \<Rightarrow> bool" where
  "str_contains [] p = (p = [])"
| "str_contains (c # cs) p = (startswith (c # cs) p \<or> str_contains cs p)"

text \<open>\<^verbatim>\<open>k in v\<close> for a string \<open>k\<close>.\<close>

fun py_in :: "string \<Rightarrow> json \<Rightarrow> pyerr + bool" where
  "py_in k (JObj kvs) = Inr (map_of kvs k \<noteq> None)"
| "py_in k (JArr xs) = Inr (JStr k \<in> set xs)"
| "py_in k (JStr s) = Inr (str_contains s k)"
| "py_in k _ = Inl TypeError"

text \<open>
  Dict keys: lists and dicts are unhashable; numbers and booleans are equal as keys when
  their values are (\<^verbatim>\<open>1 == 1.0 == True\<close>). \<^verbatim>\<open>json.load\<close> decodes every NaN literal
  to one and the same object, which a dict finds by identity, so a NaN key matches a NaN.
\<close>

fun hashable :: "json \<Rightarrow> bool" where
  "hashable (JArr xs) = False"
| "hashable (JObj kvs) = False"
| "hashable _ = True"

fun num_val :: "json \<Rightarrow> pyfloat option" where
  "num_val (JBool b) = Some (Finite (if b then 1 else 0))"
| "num_val (JInt n) = Some (Finite (of_int n))"
| "num_val (JFloat f) = Some f"
| "num_val _ = None"

fun key_eq :: "json \<Rightarrow> json \<Rightarrow> bool" where
  "key_eq (JStr a) (JStr b) = (a = b)"
| "key_eq JNull JNull = True"
| "key_eq a b = (num_val a \<noteq> None \<and> num_val a = num_val b)"

text \<open>A dict with arbitrary hashable keys, in insertion order: \<^verbatim>\<open>d[k] = v\<close> and \<^verbatim>\<open>d.get(k, dflt)\<close>.\<close>

fun dict_set :: "(json \<times> json) list \<Rightarrow> json \<Rightarrow> json \<Rightarrow> (json \<times> json) list" where
  "dict_set [] k v = [(k, v)]"
| "dict_set ((k', v') # d) k v = (if key_eq k' k then (k', v) # d else (k', v') # dict_set d k v)"

fun dict_lookup :: "(json \<times> json) list \<Rightarrow> json \<Rightarrow> json option" where
  "dict_lookup [] k = None"
| "dict_lookup ((k', v') # d) k = (if key_eq k' k then Some v' else dict_lookup d k)"

definition any_get :: "(json \<times> json) list \<Rightarrow> json \<Rightarrow> json \<Rightarrow> pyerr + json" where
  "any_get d k dflt =
     (if hashable k then Inr (case dict_lookup d k of None \<Rightarrow> dflt | Some v \<Rightarrow> v)
      else Inl TypeError)"

text \<open>\<^verbatim>\<open>float(v)\<close>.\<close>

fun py_float :: "runtime \<Rightarrow> json \<Rightarrow> pyerr + pyfloat" where
  "py_float rt (JFloat f) = Inr f"
| "py_float rt (JBool b) = Inr (Finite (if b then 1 else 0))"
| "py_float rt (JInt n) =
     (if \<bar>n\<bar> \<le> 2 ^ 53 then Inr (Finite (of_int n))
      else (case float_of_bigint rt n of None \<Rightarrow> Inl OverflowError | Some f \<Rightarrow> Inr f))"
| "py_float rt (JStr s) =
     (case float_of_str rt s of None \<Rightarrow> Inl ValueError | Some f \<Rightarrow> Inr f)"
| "py_float rt _ = Inl TypeError"

text \<open>\<^verbatim>\<open>a >= b\<close> on floats: false whenever a NaN is involved.\<close>

fun float_ge :: "pyfloat \<Rightarrow> pyfloat \<Rightarrow> bool" where
  "float_ge NaN b = False"
| "float_ge a NaN = False"
| "float_ge PosInf b = True"
| "float_ge a NegInf = True"
| "float_ge NegInf b = False"
| "float_ge a PosInf = False"
| "float_ge (Finite a) (Finite b) = (b \<le> a)"

section \<open>The data model\<close>

text \<open>
  The dataclasses declare field types that nothing enforces: an adapter stores whatever
  the document holds. Fields that an adapter fills from the document are therefore
  \<open>json\<close> values; \<open>severity\<close> is a string in every adapter. The field \<^verbatim>\<open>id\<close> is
  \<open>vuln_id\<close> here.
\<close>

record vulnerability =
  vuln_id :: json
  title :: json
  severity :: string
  description :: json
  source :: json
  file_path :: json
  line_number :: json
  cwe :: json
  cvss :: json
  remediation :: json
  references :: json

record scan_result =
  scanner :: string
  timestamp :: string
  vulnerabilities :: "vulnerability list"
  summary :: "(string \<times> int) list"

record security_report =
  generated_at :: string
  repository :: string
  branch :: string
  commit :: string
  scan_results :: "scan_result list"
  total_vulnerabilities :: "(string \<times> int) list"
  recommendations :: "string list"

definition SEVERITY_ORDER :: "string list" where
  "SEVERITY_ORDER = [''CRITICAL'', ''HIGH'', ''MEDIUM'', ''LOW'', ''INFO'']"

section \<open>The SARIF adapter\<close>

text \<open>The dict comprehension \<^verbatim>\<open>{r['id']: r for r in ...}\<close>.\<close>

fun sarif_rules :: "json list \<Rightarrow> (json \<times> json) list \<Rightarrow> pyerr + (json \<times> json) list" where
  "sarif_rules [] d = Inr d"
| "sarif_rules (r # rs) d =
     bnd (subscript_key r ''id'') (\<lambda>k.
       if hashable k then sarif_rules rs (dict_set d k r) else Inl TypeError)"

text \<open>\<^verbatim>\<open>severity_map.get(level, 'MEDIUM')\<close> with the map of line 89.\<close>

definition sarif_level_severity :: "json \<Rightarrow> pyerr + string" where
  "sarif_level_severity level =
     (if \<not> hashable level then Inl TypeError
      else if level = JStr ''error'' then Inr ''HIGH''
      else if level = JStr ''warning'' then Inr ''MEDIUM''
      else if level = JStr ''note'' then Inr ''LOW''
      else Inr ''MEDIUM'')"

definition sarif_score_severity :: "pyfloat \<Rightarrow> string" where
  "sarif_score_severity score =
     (if float_ge score (Finite 9) then ''CRITICAL''
      else if float_ge score (Finite 7) then ''HIGH''
      else if float_ge score (Finite 4) then ''MEDIUM''
      else ''LOW'')"

text \<open>Lines 93 to 102: a score of the rule replaces the severity found from the level.\<close>

definition sarif_score_override :: "runtime \<Rightarrow> string \<Rightarrow> json \<Rightarrow> pyerr + string" where
  "sarif_score_override rt level_severity props =
     bnd (py_in ''security-severity'' props) (\<lambda>has_score.
       if has_score then
         bnd (subscript_key props ''security-severity'') (\<lambda>raw.
         bnd (py_float rt raw) (\<lambda>score. Inr (sarif_score_severity score)))
       else Inr level_severity)"

text \<open>The list comprehension of line 121.\<close>

fun sarif_references :: "json list \<Rightarrow> pyerr + json list" where
  "sarif_references [] = Inr []"
| "sarif_references (JStr s # tags) =
     bnd (sarif_references tags) (\<lambda>rest.
       Inr (if startswith s ''http'' then JStr s # rest else rest))"
| "sarif_references (t # tags) = Inl AttributeError"

text \<open>Lines 85 to 122: the body of the loop over the results of one run.\<close>

definition sarif_result ::
  "runtime \<Rightarrow> json \<Rightarrow> (json \<times> json) list \<Rightarrow> json \<Rightarrow> pyerr + vulnerability" where
  "sarif_result rt tool_name rules result =
     bnd (dict_get result ''ruleId'' (JStr '''')) (\<lambda>rule_id.
     bnd (any_get rules rule_id (JObj [])) (\<lambda>rule.
     bnd (dict_get result ''level'' (JStr ''warning'')) (\<lambda>level.
     bnd (sarif_level_severity level) (\<lambda>level_severity.
     bnd (dict_get rule ''properties'' (JObj [])) (\<lambda>props.
     bnd (sarif_score_override rt level_severity props) (\<lambda>severity.
     bnd (dict_get result ''locations'' (JArr [JObj []])) (\<lambda>locations.
     bnd (if truthy locations then index0 locations else Inr (JObj [])) (\<lambda>location.
     bnd (dict_get location ''physicalLocation'' (JObj [])) (\<lambda>physical_location.
     bnd (dict_get physical_location ''artifactLocation'' (JObj [])) (\<lambda>artifact_location.
     bnd (dict_get physical_location ''region'' (JObj [])) (\<lambda>region.
     bnd (dict_get rule ''shortDescription'' (JObj [])) (\<lambda>short_description.
     bnd (dict_get short_description ''text'' rule_id) (\<lambda>title_v.
     bnd (dict_get result ''message'' (JObj [])) (\<lambda>message.
     bnd (dict_get message ''text'' (JStr '''')) (\<lambda>description_v.
     bnd (dict_get artifact_location ''uri'' (JStr '''')) (\<lambda>file_path_v.
     bnd (dict_get region ''startLine'' (JInt 0)) (\<lambda>line_number_v.
     bnd (dict_get props ''cwe'' (JStr '''')) (\<lambda>cwe_v.
     bnd (dict_get props ''security-severity'' (JInt 0)) (\<lambda>raw_cvss.
     bnd (py_float rt raw_cvss) (\<lambda>cvss_v.
     bnd (dict_get rule ''help'' (JObj [])) (\<lambda>help.
     bnd (dict_get help ''text'' (JStr '''')) (\<lambda>remediation_v.
     bnd (dict_get props ''tags'' (JArr [])) (\<lambda>tags.
     bnd (py_iter tags) (\<lambda>tag_list.
     bnd (sarif_references tag_list) (\<lambda>refs.
       Inr \<lparr>vuln_id = rule_id, title = title_v, severity = severity,
            description = description_v, source = tool_name, file_path = file_path_v,
            line_number = line_number_v, cwe = cwe_v, cvss = JFloat cvss_v,
            remediation = remediation_v, references = JArr refs\<rparr>
     )))))))))))))))))))))))))"

text \<open>
  The loops append to the list \<^verbatim>\<open>vulnerabilities\<close>, which lives outside the
  \<^verbatim>\<open>try\<close>: when an exception ends the walk, the list keeps what was appended before.
  Each loop returns the list and the exception, if one was raised.
\<close>

fun sarif_results ::
  "runtime \<Rightarrow> json \<Rightarrow> (json \<times> json) list \<Rightarrow> json list \<Rightarrow> vulnerability list
     \<Rightarrow> vulnerability list \<times> pyerr option" where
  "sarif_results rt tool_name rules [] acc = (acc, None)"
| "sarif_results rt tool_name rules (result # rest) acc =
     (case sarif_result rt tool_name rules result of
        Inl e \<Rightarrow> (acc, Some e)
      | Inr vuln \<Rightarrow> sarif_results rt tool_name rules rest (acc @ [vuln]))"

text \<open>Lines 81 to 84: what one run computes before its results are walked.\<close>

definition sarif_run_head :: "json \<Rightarrow> pyerr + (json \<times> (json \<times> json) list \<times> json list)" where
  "sarif_run_head run =
     bnd (dict_get run ''tool'' (JObj [])) (\<lambda>tool.
     bnd (dict_get tool ''driver'' (JObj [])) (\<lambda>driver.
     bnd (dict_get driver ''name'' (JStr ''Unknown'')) (\<lambda>tool_name.
     bnd (dict_get run ''tool'' (JObj [])) (\<lambda>tool2.
     bnd (dict_get tool2 ''driver'' (JObj [])) (\<lambda>driver2.
     bnd (dict_get driver2 ''rules'' (JArr [])) (\<lambda>rules_v.
     bnd (py_iter rules_v) (\<lambda>rule_list.
     bnd (sarif_rules rule_list []) (\<lambda>rules.
     bnd (dict_get run ''results'' (JArr [])) (\<lambda>results_v.
     bnd (py_iter results_v) (\<lambda>results.
       Inr (tool_name, rules, results)))))))))))"

fun sarif_runs ::
  "runtime \<Rightarrow> json list \<Rightarrow> vulnerability list \<Rightarrow> vulnerability list \<times> pyerr option" where
  "sarif_runs rt [] acc = (acc, None)"
| "sarif_runs rt (run # rest) acc =
     (case sarif_run_head run of
        Inl e \<Rightarrow> (acc, Some e)
      | Inr (tool_name, rules, results) \<Rightarrow>
          (case sarif_results rt tool_name rules results acc of
             (acc', Some e) \<Rightarrow> (acc', Some e)
           | (acc', None) \<Rightarrow> sarif_runs rt rest acc'))"

text \<open>
  The body of the \<^verbatim>\<open>try\<close> of \<open>parse_sarif\<close>. The argument is what
  \<^verbatim>\<open>open\<close> and \<^verbatim>\<open>json.load\<close> give for the file: \<open>None\<close> when either raises.
\<close>

definition sarif_try :: "runtime \<Rightarrow> json option \<Rightarrow> vulnerability list \<times> pyerr option" where
  "sarif_try rt file =
     (case file of
        None \<Rightarrow> ([], Some DecodeError)
      | Some data \<Rightarrow>
          (case bnd (dict_get data ''runs'' (JArr [])) py_iter of
             Inl e \<Rightarrow> ([], Some e)
           | Inr runs \<Rightarrow> sarif_runs rt runs []))"

text \<open>The \<^verbatim>\<open>except\<close> clause prints the exception; the function returns the list.\<close>

definition parse_sarif :: "runtime \<Rightarrow> json option \<Rightarrow> vulnerability list" where
  "parse_sarif rt file = fst (sarif_try rt file)"

section \<open>The dependency-audit adapter\<close>

text \<open>\<^verbatim>\<open>v.items()\<close>: only a dict has the method.\<close>

fun dict_items :: "json \<Rightarrow> pyerr + (string \<times> json) list" where
  "dict_items (JObj kvs) = Inr kvs"
| "dict_items _ = Inl AttributeError"

text \<open>\<^verbatim>\<open>severity_map.get(s, 'MEDIUM')\<close> with the map of line 139.\<close>

definition npm_severity :: "json \<Rightarrow> pyerr + string" where
  "npm_severity s =
     (if \<not> hashable s then Inl TypeError
      else if s = JStr ''critical'' then Inr ''CRITICAL''
      else if s = JStr ''high'' then Inr ''HIGH''
      else if s = JStr ''moderate'' then Inr ''MEDIUM''
      else if s = JStr ''low'' then Inr ''LOW''
      else Inr ''MEDIUM'')"

fun is_dict :: "json \<Rightarrow> bool" where
  "is_dict (JObj kvs) = True"
| "is_dict _ = False"

text \<open>Lines 141 to 151: the body of the loop over the advisories.\<close>

definition npm_vuln :: "string \<Rightarrow> json \<Rightarrow> pyerr + vulnerability" where
  "npm_vuln vuln_id_k vuln_data =
     bnd (dict_get vuln_data ''name'' (JStr vuln_id_k)) (\<lambda>title_v.
     bnd (dict_get vuln_data ''severity'' (JStr '''')) (\<lambda>native.
     bnd (npm_severity native) (\<lambda>severity_v.
     bnd (dict_get vuln_data ''title'' (JStr '''')) (\<lambda>description_v.
     bnd (dict_get vuln_data ''fixAvailable'' JNull) (\<lambda>fix.
     bnd (if is_dict fix then
            bnd (dict_get vuln_data ''fixAvailable'' (JObj [])) (\<lambda>fix2.
              dict_get fix2 ''name'' (JStr ''''))
          else Inr (JStr '''')) (\<lambda>remediation_v.
     bnd (dict_get vuln_data ''url'' (JStr '''')) (\<lambda>url.
       Inr \<lparr>vuln_id = JStr vuln_id_k, title = title_v, severity = severity_v,
            description = description_v, source = JStr ''npm audit'',
            file_path = JStr ''package.json'', line_number = JInt 0, cwe = JStr '''',
            cvss = JFloat (Finite 0), remediation = remediation_v,
            references = JArr [url]\<rparr>
     )))))))"

fun npm_vulns ::
  "(string \<times> json) list \<Rightarrow> vulnerability list \<Rightarrow> vulnerability list \<times> pyerr option" where
  "npm_vulns [] acc = (acc, None)"
| "npm_vulns ((vuln_id_k, vuln_data) # rest) acc =
     (case npm_vuln vuln_id_k vuln_data of
        Inl e \<Rightarrow> (acc, Some e)
      | Inr vuln \<Rightarrow> npm_vulns rest (acc @ [vuln]))"

definition npm_try :: "json option \<Rightarrow> vulnerability list \<times> pyerr option" where
  "npm_try file =
     (case file of
        None \<Rightarrow> ([], Some DecodeError)
      | Some data \<Rightarrow>
          (case bnd (dict_get data ''vulnerabilities'' (JObj [])) dict_items of
             Inl e \<Rightarrow> ([], Some e)
           | Inr entries \<Rightarrow> npm_vulns entries []))"

definition parse_npm_audit :: "json option \<Rightarrow> vulnerability list" where
  "parse_npm_audit file = fst (npm_try file)"

section \<open>The image-scan adapter\<close>

text \<open>\<^verbatim>\<open>v.upper()\<close>: only a string has the method.\<close>

fun py_upper :: "runtime \<Rightarrow> json \<Rightarrow> pyerr + string" where
  "py_upper rt (JStr s) = Inr (str_upper rt s)"
| "py_upper rt _ = Inl AttributeError"

text \<open>Lines 171 to 181: the body of the loop over the vulnerabilities of one target.\<close>

definition trivy_vuln :: "runtime \<Rightarrow> json \<Rightarrow> json \<Rightarrow> pyerr + vulnerability" where
  "trivy_vuln rt target vuln_data =
     bnd (dict_get vuln_data ''VulnerabilityID'' (JStr '''')) (\<lambda>id_v.
     bnd (dict_get vuln_data ''VulnerabilityID'' (JStr '''')) (\<lambda>title_dflt.
     bnd (dict_get vuln_data ''Title'' title_dflt) (\<lambda>title_v.
     bnd (dict_get vuln_data ''Severity'' (JStr ''UNKNOWN'')) (\<lambda>native.
     bnd (py_upper rt native) (\<lambda>severity_v.
     bnd (dict_get vuln_data ''Description'' (JStr '''')) (\<lambda>description_v.
     bnd (dict_get vuln_data ''CVSS'' (JObj [])) (\<lambda>cvss_obj.
     bnd (dict_get cvss_obj ''nvd'' (JObj [])) (\<lambda>nvd.
     bnd (dict_get nvd ''V3Score'' (JInt 0)) (\<lambda>cvss_v.
     bnd (dict_get vuln_data ''PkgName'' (JStr '''')) (\<lambda>pkg.
     bnd (dict_get vuln_data ''FixedVersion'' (JStr ''N/A'')) (\<lambda>fixed.
     bnd (dict_get vuln_data ''References'' (JArr [])) (\<lambda>refs.
     bnd (slice_to 3 refs) (\<lambda>refs3.
       Inr \<lparr>vuln_id = id_v, title = title_v, severity = severity_v,
            description = description_v, source = JStr ''Trivy'', file_path = target,
            line_number = JInt 0, cwe = JStr '''', cvss = cvss_v,
            remediation = JStr (''Update '' @ str_of rt pkg @ '' to '' @ str_of rt fixed),
            references = refs3\<rparr>
     )))))))))))))"

fun trivy_vulns ::
  "runtime \<Rightarrow> json \<Rightarrow> json list \<Rightarrow> vulnerability list
     \<Rightarrow> vulnerability list \<times> pyerr option" where
  "trivy_vulns rt target [] acc = (acc, None)"
| "trivy_vulns rt target (vuln_data # rest) acc =
     (case trivy_vuln rt target vuln_data of
        Inl e \<Rightarrow> (acc, Some e)
      | Inr vuln \<Rightarrow> trivy_vulns rt target rest (acc @ [vuln]))"

text \<open>Lines 168 and 170: the target of one result and the entries to walk.\<close>

definition trivy_result_head :: "json \<Rightarrow> pyerr + (json \<times> json list)" where
  "trivy_result_head result =
     bnd (dict_get result ''Target'' (JStr '''')) (\<lambda>target.
     bnd (dict_get result ''Vulnerabilities'' (JArr [])) (\<lambda>vulns_v.
     bnd (py_iter vulns_v) (\<lambda>vulns.
       Inr (target, vulns))))"

fun trivy_results ::
  "runtime \<Rightarrow> json list \<Rightarrow> vulnerability list \<Rightarrow> vulnerability list \<times> pyerr option" where
  "trivy_results rt [] acc = (acc, None)"
| "trivy_results rt (result # rest) acc =
     (case trivy_result_head result of
        Inl e \<Rightarrow> (acc, Some e)
      | Inr (target, vulns) \<Rightarrow>
          (case trivy_vulns rt target vulns acc of
             (acc', Some e) \<Rightarrow> (acc', Some e)
           | (acc', None) \<Rightarrow> trivy_results rt rest acc'))"

definition trivy_try :: "runtime \<Rightarrow> json option \<Rightarrow> vulnerability list \<times> pyerr option" where
  "trivy_try rt file =
     (case file of
        None \<Rightarrow> ([], Some DecodeError)
      | Some data \<Rightarrow>
          (case bnd (dict_get data ''Results'' (JArr [])) py_iter of
             Inl e \<Rightarrow> ([], Some e)
           | Inr results \<Rightarrow> trivy_results rt results []))"

definition parse_trivy_json :: "runtime \<Rightarrow> json option \<Rightarrow> vulnerability list" where
  "parse_trivy_json rt file = fst (trivy_try rt file)"

section \<open>The result collector\<close>

text \<open>
  The collector sees the file system through \<^verbatim>\<open>Path.exists\<close> and three \<^verbatim>\<open>rglob\<close>
  calls. An input directory is given by what they return: whether the directory exists
  and, for each pattern, the matching paths in the order \<^verbatim>\<open>rglob\<close> yields them, each
  with the stem and suffix of its name and with what \<^verbatim>\<open>open\<close> and \<^verbatim>\<open>json.load\<close> give
  for it (\<open>None\<close> when either raises).
\<close>

record path =
  stem :: string
  suffix :: string

record input_dir =
  dir_exists :: bool
  sarif_files :: "(path \<times> json option) list"
  npm_files :: "(path \<times> json option) list"
  trivy_files :: "(path \<times> json option) list"

text \<open>
  \<open>now env k\<close> is the text of the \<open>k\<close>-th reading of the clock,
  \<^verbatim>\<open>datetime.now().isoformat()\<close>; the other fields are the variables of the process
  environment that the report quotes.
\<close>

record environment =
  now :: "nat \<Rightarrow> string"
  GITHUB_REPOSITORY :: "string option"
  GITHUB_REF_NAME :: "string option"
  GITHUB_SHA :: "string option"

text \<open>The mutable state of a \<^verbatim>\<open>ReportGenerator\<close>, and how often it has read the clock.\<close>

record generator =
  self_scan_results :: "scan_result list"
  clock_reads :: nat

text \<open>\<^verbatim>\<open>d[k] += n\<close> on a \<^verbatim>\<open>defaultdict(int)\<close>, and \<^verbatim>\<open>d.get(k, dflt)\<close>.\<close>

fun count_add :: "(string \<times> int) list \<Rightarrow> string \<Rightarrow> int \<Rightarrow> (string \<times> int) list" where
  "count_add [] k n = [(k, 0 + n)]"
| "count_add ((k', c) # d) k n = (if k' = k then (k', c + n) # d else (k', c) # count_add d k n)"

definition count_get :: "(string \<times> int) list \<Rightarrow> string \<Rightarrow> int \<Rightarrow> int" where
  "count_get d k dflt = (case map_of d k of None \<Rightarrow> dflt | Some c \<Rightarrow> c)"

text \<open>Lines 198 to 200: the summary of a list of findings.\<close>

definition summarize :: "vulnerability list \<Rightarrow> (string \<times> int) list" where
  "summarize vulns = fold (\<lambda>v d. count_add d (severity v) 1) vulns []"

text \<open>Lines 197 to 207: a non-empty list of findings becomes a \<^verbatim>\<open>ScanResult\<close>.\<close>

definition append_result ::
  "environment \<Rightarrow> string \<Rightarrow> vulnerability list \<Rightarrow> generator \<Rightarrow> generator" where
  "append_result env name vulns g =
     (if vulns \<noteq> [] then
        g\<lparr>self_scan_results := self_scan_results g @
             [\<lparr>scanner = name, timestamp = now env (clock_reads g),
               vulnerabilities = vulns, summary = summarize vulns\<rparr>],
          clock_reads := Suc (clock_reads g)\<rparr>
      else g)"

fun collect_sarif ::
  "runtime \<Rightarrow> environment \<Rightarrow> (path \<times> json option) list \<Rightarrow> generator \<Rightarrow> generator" where
  "collect_sarif rt env [] g = g"
| "collect_sarif rt env ((p, file) # rest) g =
     collect_sarif rt env rest (append_result env (stem p) (parse_sarif rt file) g)"

fun collect_npm ::
  "environment \<Rightarrow> (path \<times> json option) list \<Rightarrow> generator \<Rightarrow> generator" where
  "collect_npm env [] g = g"
| "collect_npm env ((p, file) # rest) g =
     collect_npm env rest (append_result env ''npm-audit'' (parse_npm_audit file) g)"

fun collect_trivy ::
  "runtime \<Rightarrow> environment \<Rightarrow> (path \<times> json option) list \<Rightarrow> generator \<Rightarrow> generator" where
  "collect_trivy rt env [] g = g"
| "collect_trivy rt env ((p, file) # rest) g =
     collect_trivy rt env rest
       (if suffix p = ''.json''
        then append_result env (''trivy-'' @ stem p) (parse_trivy_json rt file) g
        else g)"

definition collect_results :: "runtime \<Rightarrow> environment \<Rightarrow> input_dir \<Rightarrow> generator \<Rightarrow> generator" where
  "collect_results rt env dir g =
     (if \<not> dir_exists dir then g
      else collect_trivy rt env (trivy_files dir)
             (collect_npm env (npm_files dir)
               (collect_sarif rt env (sarif_files dir) g)))"

section \<open>The aggregator and the recommendation engine\<close>

text \<open>Lines 240 to 244.\<close>

definition add_summary :: "scan_result \<Rightarrow> (string \<times> int) list \<Rightarrow> (string \<times> int) list" where
  "add_summary result acc = fold (\<lambda>item t. count_add t (fst item) (snd item)) (summary result) acc"

definition totals :: "scan_result list \<Rightarrow> (string \<times> int) list" where
  "totals results = fold add_summary results []"

definition total_of :: "string \<Rightarrow> scan_result list \<Rightarrow> int" where
  "total_of sev results = sum_list (map (\<lambda>r. count_get (summary r) sev 0) results)"

definition critical_message :: "runtime \<Rightarrow> int \<Rightarrow> string" where
  "critical_message rt n =
     ''CRITICAL: '' @ str_of rt (JInt n) @ '' critical vulnerabilities found. '' @
     ''These must be addressed immediately before deployment.''"

definition high_message :: "runtime \<Rightarrow> int \<Rightarrow> string" where
  "high_message rt n =
     ''HIGH: '' @ str_of rt (JInt n) @ '' high severity vulnerabilities found. '' @
     ''Plan to remediate these within 7 days.''"

definition sast_message :: string where
  "sast_message = ''Consider enabling SAST scanning with Semgrep for code analysis.''"

definition reassurance_message :: string where
  "reassurance_message =
     ''No critical or high severity vulnerabilities found. '' @
     ''Continue monitoring and keep dependencies updated.''"

text \<open>Line 278: \<^verbatim>\<open>any('semgrep' in s.lower() for s in scanners)\<close>.\<close>

definition has_semgrep :: "runtime \<Rightarrow> scan_result list \<Rightarrow> bool" where
  "has_semgrep rt results =
     list_ex (\<lambda>s. str_contains (str_lower rt s) ''semgrep'') (map scanner results)"

definition generate_recommendations :: "runtime \<Rightarrow> scan_result list \<Rightarrow> string list" where
  "generate_recommendations rt results =
     (let total_critical = total_of ''CRITICAL'' results;
          total_high = total_of ''HIGH'' results;
          r1 = (if total_critical > 0 then [] @ [critical_message rt total_critical] else []);
          r2 = (if total_high > 0 then r1 @ [high_message rt total_high] else r1);
          r3 = (if \<not> has_semgrep rt results then r2 @ [sast_message] else r2)
      in if r3 = [] then r3 @ [reassurance_message] else r3)"

definition env_get :: "string option \<Rightarrow> string \<Rightarrow> string" where
  "env_get var dflt = (case var of None \<Rightarrow> dflt | Some v \<Rightarrow> v)"

definition generate_report :: "runtime \<Rightarrow> environment \<Rightarrow> generator \<Rightarrow> security_report" where
  "generate_report rt env g =
     \<lparr>generated_at = now env (clock_reads g),
      repository = env_get (GITHUB_REPOSITORY env) ''unknown'',
      branch = env_get (GITHUB_REF_NAME env) ''unknown'',
      commit = take 8 (env_get (GITHUB_SHA env) ''unknown''),
      scan_results = self_scan_results g,
      total_vulnerabilities = totals (self_scan_results g),
      recommendations = generate_recommendations rt (self_scan_results g)\<rparr>"

text \<open>
  Lines 371 to 378 of \<^verbatim>\<open>main\<close>: a fresh generator collects, and the run stops with
  exit status 1 (\<open>None\<close>) when nothing was collected.
\<close>

definition new_generator :: generator where
  "new_generator = \<lparr>self_scan_results = [], clock_reads = 0\<rparr>"

definition main_report :: "runtime \<Rightarrow> environment \<Rightarrow> input_dir \<Rightarrow> security_report option" where
  "main_report rt env dir =
     (let g = collect_results rt env dir new_generator
      in if self_scan_results g = [] then None else Some (generate_report rt env g))"

section \<open>The Markdown renderer\<close>

definition header_lines :: "security_report \<Rightarrow> string list" where
  "header_lines report =
     [''# Security Scan Report'',
      '''',
      ''**Generated:** '' @ generated_at report,
      ''**Repository:** '' @ repository report,
      ''**Branch:** '' @ branch report,
      ''**Commit:** '' @ commit report,
      '''',
      ''## Summary'',
      '''',
      ''| Severity | Count |'',
      ''|----------|-------|'']"

text \<open>Lines 316 to 318.\<close>

definition summary_row :: "runtime \<Rightarrow> security_report \<Rightarrow> string \<Rightarrow> string" where
  "summary_row rt report sev =
     ''| '' @ sev @ '' | '' @ str_of rt (JInt (count_get (total_vulnerabilities report) sev 0)) @ '' |''"

definition summary_table :: "runtime \<Rightarrow> security_report \<Rightarrow> string list \<Rightarrow> string list" where
  "summary_table rt report lines = fold (\<lambda>sev ls. ls @ [summary_row rt report sev]) SEVERITY_ORDER lines"

text \<open>Lines 322 and 323.\<close>

definition recommendation_lines :: "security_report \<Rightarrow> string list \<Rightarrow> string list" where
  "recommendation_lines report lines = fold (\<lambda>rec ls. ls @ [''- '' @ rec]) (recommendations report) lines"

text \<open>\<^verbatim>\<open>d[k].append(v)\<close> on a \<^verbatim>\<open>defaultdict(list)\<close>, and \<^verbatim>\<open>d.get(k, [])\<close>.\<close>

fun group_add ::
  "(string \<times> vulnerability list) list \<Rightarrow> string \<Rightarrow> vulnerability
     \<Rightarrow> (string \<times> vulnerability list) list" where
  "group_add [] k v = [(k, [] @ [v])]"
| "group_add ((k', vs) # d) k v = (if k' = k then (k', vs @ [v]) # d else (k', vs) # group_add d k v)"

definition group_get :: "(string \<times> vulnerability list) list \<Rightarrow> string \<Rightarrow> vulnerability list" where
  "group_get d k = (case map_of d k of None \<Rightarrow> [] | Some vs \<Rightarrow> vs)"

text \<open>Lines 336 to 338.\<close>

definition by_severity :: "vulnerability list \<Rightarrow> (string \<times> vulnerability list) list" where
  "by_severity vulns = fold (\<lambda>vuln d. group_add d (severity vuln) vuln) vulns []"

text \<open>
  Lines 347 to 352: the lines of one finding. The slice of the remediation raises when
  the value is neither a string nor a list, and nothing catches it.
\<close>

definition vuln_lines :: "runtime \<Rightarrow> vulnerability \<Rightarrow> string list \<Rightarrow> pyerr + string list" where
  "vuln_lines rt vuln lines =
     (let l1 = lines @ [''- **'' @ str_of rt (title vuln) @ ''** ('' @ str_of rt (vuln_id vuln) @ '')''];
          l2 = (if truthy (file_path vuln)
                then l1 @ [''  - File: `'' @ str_of rt (file_path vuln) @ ''`:'' @
                           str_of rt (line_number vuln)]
                else l1)
      in if truthy (remediation vuln)
         then bnd (slice_to 100 (remediation vuln)) (\<lambda>r.
                Inr ((l2 @ [''  - Fix: '' @ str_of rt r]) @ ['''']))
         else Inr (l2 @ ['''']))"

fun listed_lines :: "runtime \<Rightarrow> vulnerability list \<Rightarrow> string list \<Rightarrow> pyerr + string list" where
  "listed_lines rt [] lines = Inr lines"
| "listed_lines rt (vuln # rest) lines = bnd (vuln_lines rt vuln lines) (listed_lines rt rest)"

text \<open>Lines 341 to 356: one severity of one scanner.\<close>

definition severity_lines ::
  "runtime \<Rightarrow> (string \<times> vulnerability list) list \<Rightarrow> string \<Rightarrow> string list
     \<Rightarrow> pyerr + string list" where
  "severity_lines rt groups sev lines =
     (let vulns = group_get groups sev
      in if vulns \<noteq> [] then
           bnd (listed_lines rt (take 10 vulns)
                  ((lines @ [''#### '' @ sev @ '' ('' @ str_of rt (JInt (int (length vulns))) @ '')''])
                     @ ['''']))
             (\<lambda>ls. if length vulns > 10
                   then Inr ((ls @ [''  *...and '' @ str_of rt (JInt (int (length vulns) - 10))
                                     @ '' more*'']) @ [''''])
                   else Inr ls)
         else Inr lines)"

fun severities_lines ::
  "runtime \<Rightarrow> (string \<times> vulnerability list) list \<Rightarrow> string list \<Rightarrow> string list
     \<Rightarrow> pyerr + string list" where
  "severities_lines rt groups [] lines = Inr lines"
| "severities_lines rt groups (sev # rest) lines =
     bnd (severity_lines rt groups sev lines) (severities_lines rt groups rest)"

text \<open>Lines 328 to 356: the section of one scanner.\<close>

definition result_lines :: "runtime \<Rightarrow> scan_result \<Rightarrow> string list \<Rightarrow> pyerr + string list" where
  "result_lines rt result lines =
     (let l1 = (lines @ [''### '' @ scanner result]) @ ['''']
      in if vulnerabilities result = []
         then Inr ((l1 @ [''No vulnerabilities found.'']) @ [''''])
         else severities_lines rt (by_severity (vulnerabilities result)) SEVERITY_ORDER l1)"

fun results_lines :: "runtime \<Rightarrow> scan_result list \<Rightarrow> string list \<Rightarrow> pyerr + string list" where
  "results_lines rt [] lines = Inr lines"
| "results_lines rt (result # rest) lines = bnd (result_lines rt result lines) (results_lines rt rest)"

text \<open>The list \<^verbatim>\<open>lines\<close> when line 358 is reached.\<close>

definition markdown_lines :: "runtime \<Rightarrow> security_report \<Rightarrow> pyerr + string list" where
  "markdown_lines rt report =
     results_lines rt (scan_results report)
       (recommendation_lines report (summary_table rt report (header_lines report)
            @ ['''', ''## Recommendations'', ''''])
          @ ['''', ''## Detailed Findings'', ''''])"

text \<open>\<^verbatim>\<open>"\n".join(lines)\<close>.\<close>

fun join_lines :: "string list \<Rightarrow> string" where
  "join_lines [] = []"
| "join_lines [l] = l"
| "join_lines (l # ls) = l @ [CHR 0x0A] @ join_lines ls"

definition output_markdown :: "runtime \<Rightarrow> security_report \<Rightarrow> pyerr + string" where
  "output_markdown rt report = bnd (markdown_lines rt report) (\<lambda>lines. Inr (join_lines lines))"

section \<open>A runtime and documents to evaluate the model on\<close>

text \<open>
  \<open>ascii_runtime\<close> upper- and lower-cases the ASCII letters, prints integers in decimal
  and strings, booleans and \<^verbatim>\<open>None\<close> as Python does, and converts no string and no
  integer beyond \<open>2 ^ 53\<close> to a float. On the documents below, which hold ASCII strings,
  small numbers and no score written as a string, it computes what CPython computes.
\<close>

fun show_nat :: "nat \<Rightarrow> string" where
  "show_nat n =
     (if n < 10 then [char_of (48 + n)] else show_nat (n div 10) @ [char_of (48 + n mod 10)])"

declare show_nat.simps [simp del]

definition show_int :: "int \<Rightarrow> string" where
  "show_int i = (if i < 0 then CHR ''-'' # show_nat (nat (- i)) else show_nat (nat i))"

definition upper_char :: "char \<Rightarrow> char" where
  "upper_char c =
     (let n = of_char c :: nat in if 97 \<le> n \<and> n \<le> 122 then char_of (n - 32) else c)"

definition lower_char :: "char \<Rightarrow> char" where
  "lower_char c =
     (let n = of_char c :: nat in if 65 \<le> n \<and> n \<le> 90 then char_of (n + 32) else c)"

fun ascii_str_of :: "json \<Rightarrow> string" where
  "ascii_str_of (JStr s) = s"
| "ascii_str_of (JInt n) = show_int n"
| "ascii_str_of (JBool b) = (if b then ''True'' else ''False'')"
| "ascii_str_of JNull = ''None''"
| "ascii_str_of _ = []"

definition ascii_runtime :: runtime where
  "ascii_runtime =
     \<lparr>float_of_str = (\<lambda>s. None), float_of_bigint = (\<lambda>n. None),
      str_upper = map upper_char, str_lower = map lower_char, str_of = ascii_str_of\<rparr>"

definition sample_env :: environment where
  "sample_env =
     \<lparr>now = (\<lambda>k. ''2024-05-01T12:00:0'' @ show_nat k),
      GITHUB_REPOSITORY = Some ''acme/shop'', GITHUB_REF_NAME = Some ''main'',
      GITHUB_SHA = Some ''0123456789abcdef''\<rparr>"

text \<open>
  A SARIF document with one result at level \<^verbatim>\<open>error\<close> whose rule carries the score 9.5 and
  two tags, one of them a link.
\<close>

definition sarif_rule_R1 :: json where
  "sarif_rule_R1 =
     JObj [(''id'', JStr ''R1''),
           (''properties'', JObj [(''security-severity'', JFloat (Finite (19 / 2))),
                                  (''tags'', JArr [JStr ''security'', JStr ''https://cwe.example/89''])])]"

definition sarif_result_ok :: json where
  "sarif_result_ok =
     JObj [(''ruleId'', JStr ''R1''), (''level'', JStr ''error''),
           (''message'', JObj [(''text'', JStr ''SQL built from input'')])]"

definition sarif_doc :: json where
  "sarif_doc =
     JObj [(''runs'', JArr [JObj
       [(''tool'', JObj [(''driver'', JObj [(''name'', JStr ''Semgrep''),
                                            (''rules'', JArr [sarif_rule_R1])])]),
        (''results'', JArr [sarif_result_ok])]])]"

text \<open>
  The same run with two more results. The second has level \<^verbatim>\<open>note\<close> and names no known
  rule; the \<^verbatim>\<open>message\<close> of the third is a string, so \<^verbatim>\<open>.get\<close> on it raises.
\<close>

definition sarif_result_note :: json where
  "sarif_result_note = JObj [(''ruleId'', JStr ''R2''), (''level'', JStr ''note'')]"



text \<open>A dependency-audit document with one advisory, of severity \<^verbatim>\<open>moderate\<close> and without \<^verbatim>\<open>url\<close>.\<close>

definition npm_doc :: json where
  "npm_doc =
     JObj [(''vulnerabilities'', JObj
       [(''lodash'', JObj [(''name'', JStr ''lodash''), (''severity'', JStr ''moderate''),
                           (''title'', JStr ''Prototype Pollution'')])])]"

text \<open>
  An image-scan document with two entries for one target: the first names no severity,
  the second has severity \<^verbatim>\<open>high\<close> and four references.
\<close>

definition trivy_doc :: json where
  "trivy_doc =
     JObj [(''Results'', JArr [JObj
       [(''Target'', JStr ''alpine:3.18''),
        (''Vulnerabilities'', JArr
          [JObj [(''VulnerabilityID'', JStr ''CVE-2024-0001''), (''PkgName'', JStr ''openssl'')],
           JObj [(''VulnerabilityID'', JStr ''CVE-2024-0002''), (''PkgName'', JStr ''zlib''),
                 (''Severity'', JStr ''high''), (''FixedVersion'', JStr ''1.3.1''),
                 (''References'', JArr [JStr ''https://a.example/1'', JStr ''see vendor note'',
                                        JStr ''https://a.example/3'', JStr ''https://a.example/4''])]])]])]"

definition sample_path :: "string \<Rightarrow> string \<Rightarrow> path" where
  "sample_path st su = \<lparr>stem = st, suffix = su\<rparr>"

definition sample_dir :: input_dir where
  "sample_dir =
     \<lparr>dir_exists = True,
      sarif_files = [(sample_path ''broken'' ''.sarif'', None),
                     (sample_path ''semgrep'' ''.sarif'', Some sarif_doc)],
      npm_files = [(sample_path ''npm-audit'' ''.json'', Some npm_doc)],
      trivy_files = [(sample_path ''trivy-image'' ''.json'', Some trivy_doc)]\<rparr>"

section \<open>The rules as the specification words them\<close>

text \<open>
  The level mapping and the score thresholds of the specification, written from its
  words, to be compared with what the adapter computes; and the test by which a tag
  counts as a link.
\<close>

definition spec_level_severity :: "json \<Rightarrow> string" where
  "spec_level_severity level =
     (if level = JStr ''error'' then ''HIGH''
      else if level = JStr ''warning'' then ''MEDIUM''
      else if level = JStr ''note'' then ''LOW''
      else ''MEDIUM'')"

definition spec_score_severity :: "pyfloat \<Rightarrow> string" where
  "spec_score_severity score =
     (case score of
        Finite q \<Rightarrow> (if 9 \<le> q then ''CRITICAL'' else if 7 \<le> q then ''HIGH''
                     else if 4 \<le> q then ''MEDIUM'' else ''LOW'')
      | PosInf \<Rightarrow> ''CRITICAL''
      | NegInf \<Rightarrow> ''LOW''
      | NaN \<Rightarrow> ''LOW'')"

definition looks_like_url :: "json \<Rightarrow> bool" where
  "looks_like_url v = (case v of JStr s \<Rightarrow> startswith s ''http'' | _ \<Rightarrow> False)"

text \<open>
  A directory whose only document is a SARIF file named after Semgrep, with one result at
  level \<^verbatim>\<open>note\<close>: nothing CRITICAL, nothing HIGH, and static analysis has run.
\<close>

definition sarif_doc_note :: json where
  "sarif_doc_note =
     JObj [(''runs'', JArr [JObj
       [(''tool'', JObj [(''driver'', JObj [(''name'', JStr ''Semgrep'')])]),
        (''results'', JArr [sarif_result_note])]])]"

definition quiet_dir :: input_dir where
  "quiet_dir =
     \<lparr>dir_exists = True,
      sarif_files = [(sample_path ''Semgrep-scan'' ''.sarif'', Some sarif_doc_note)],
      npm_files = [],
      trivy_files = []\<rparr>"

text \<open>What the collector guarantees of every \<^verbatim>\<open>ScanResult\<close> it builds.\<close>

definition collected :: "scan_result \<Rightarrow> bool" where
  "collected r = (vulnerabilities r \<noteq> [] \<and> summary r = summarize (vulnerabilities r))"

text \<open>The generator after collecting the sample directory, and the report of that run.\<close>

definition sample_generator :: generator where
  "sample_generator = collect_results ascii_runtime sample_env sample_dir new_generator"

definition sample_report :: security_report where
  "sample_report = generate_report ascii_runtime sample_env sample_generator"

text \<open>
  The human-readable document as the specification words it: the header, one table row
  for each of the five severities in their fixed order, the recommendations, and one
  section for each scanner; in a section one group for each of the five severities that
  has findings, which lists the first ten of them and then, when there are more, says how
  many were left out. The lines of one finding are those that \<open>vuln_lines\<close> adds.
\<close>

definition finding_block :: "runtime \<Rightarrow> vulnerability \<Rightarrow> string list" where
  "finding_block rt v = (case vuln_lines rt v [] of Inl e \<Rightarrow> [] | Inr ls \<Rightarrow> ls)"

definition spec_group_block :: "runtime \<Rightarrow> string \<Rightarrow> vulnerability list \<Rightarrow> string list" where
  "spec_group_block rt sev vulns =
     (if vulns = [] then []
      else [''#### '' @ sev @ '' ('' @ str_of rt (JInt (int (length vulns))) @ '')'', '''']
           @ concat (map (finding_block rt) (take 10 vulns))
           @ (if length vulns > 10
              then [''  *...and '' @ str_of rt (JInt (int (length vulns) - 10)) @ '' more*'', '''']
              else []))"

definition spec_section :: "runtime \<Rightarrow> scan_result \<Rightarrow> string list" where
  "spec_section rt r =
     [''### '' @ scanner r, '''']
     @ (if vulnerabilities r = [] then [''No vulnerabilities found.'', '''']
        else concat (map (\<lambda>sev. spec_group_block rt sev
                            (filter (\<lambda>v. severity v = sev) (vulnerabilities r)))
                      [''CRITICAL'', ''HIGH'', ''MEDIUM'', ''LOW'', ''INFO'']))"

definition spec_document :: "runtime \<Rightarrow> security_report \<Rightarrow> string list" where
  "spec_document rt R =
     header_lines R
     @ [summary_row rt R ''CRITICAL'', summary_row rt R ''HIGH'', summary_row rt R ''MEDIUM'',
        summary_row rt R ''LOW'', summary_row rt R ''INFO'']
     @ ['''', ''## Recommendations'', '''']
     @ map (\<lambda>rec. ''- '' @ rec) (recommendations R)
     @ ['''', ''## Detailed Findings'', '''']
     @ concat (map (spec_section rt) (scan_results R))"

text \<open>
  The remediation of a finding can be printed when it is empty, zero, false or null (it
  is then skipped), or when it is a string or a list (it can then be sliced).
\<close>

definition remediation_ok :: "vulnerability \<Rightarrow> bool" where
  "remediation_ok v =
     (case remediation v of JStr s \<Rightarrow> True | JArr xs \<Rightarrow> True | x \<Rightarrow> \<not> truthy x)"

text \<open>An image-scan document with twelve entries of severity \<^verbatim>\<open>low\<close>, and the report of its run.\<close>

definition trivy_entry_low :: json where
  "trivy_entry_low =
     JObj [(''VulnerabilityID'', JStr ''CVE-2024-0003''), (''PkgName'', JStr ''busybox''),
           (''Severity'', JStr ''low'')]"

definition trivy_doc_crowded :: json where
  "trivy_doc_crowded =
     JObj [(''Results'', JArr [JObj
       [(''Target'', JStr ''alpine:3.18''),
        (''Vulnerabilities'', JArr (replicate 12 trivy_entry_low))]])]"

definition crowded_dir :: input_dir where
  "crowded_dir =
     \<lparr>dir_exists = True, sarif_files = [], npm_files = [],
      trivy_files = [(sample_path ''trivy-image'' ''.json'', Some trivy_doc_crowded)]\<rparr>"

definition crowded_report :: security_report where
  "crowded_report =
     generate_report ascii_runtime sample_env
       (collect_results ascii_runtime sample_env crowded_dir new_generator)"




section \<open>Where the findings of an adapter come from\<close>

lemma bnd_Inr: "bnd m f = Inr y \<longleftrightarrow> (\<exists>x. m = Inr x \<and> f x = Inr y)"
  by (cases m) (simp_all add: bnd_def)

lemma sarif_resultE:
  assumes "sarif_result rt t rules result = Inr v"
  obtains rule_id rule level lsev props cwe_v tags tag_list refs where
    "dict_get result ''ruleId'' (JStr '''') = Inr rule_id"
    "any_get rules rule_id (JObj []) = Inr rule"
    "dict_get result ''level'' (JStr ''warning'') = Inr level"
    "sarif_level_severity level = Inr lsev"
    "dict_get rule ''properties'' (JObj []) = Inr props"
    "sarif_score_override rt lsev props = Inr (severity v)"
    "dict_get props ''cwe'' (JStr '''') = Inr cwe_v"
    "dict_get props ''tags'' (JArr []) = Inr tags"
    "py_iter tags = Inr tag_list"
    "sarif_references tag_list = Inr refs"
    "references v = JArr refs"
  using assms unfolding sarif_result_def bnd_Inr by fastforce

lemma dict_get_Inr_obj: "dict_get x k d = Inr y \<Longrightarrow> \<exists>kvs. x = JObj kvs"
  by (cases x) simp_all

lemma sarif_level_severity_spec:
  "sarif_level_severity level = Inr s \<Longrightarrow> s = spec_level_severity level"
  by (auto simp: sarif_level_severity_def spec_level_severity_def split: if_splits)

lemma sarif_score_severity_spec: "sarif_score_severity score = spec_score_severity score"
  by (cases score) (simp_all add: sarif_score_severity_def spec_score_severity_def)

lemma sarif_score_override_obj:
  "sarif_score_override rt lsev (JObj kvs) = Inr s \<Longrightarrow>
     (case map_of kvs ''security-severity'' of
        None \<Rightarrow> s = lsev
      | Some raw \<Rightarrow> \<exists>score. py_float rt raw = Inr score \<and> s = spec_score_severity score)"
  by (auto simp: sarif_score_override_def bnd_Inr sarif_score_severity_spec
           split: if_splits option.splits)

lemma spec_level_severity_canon:
  "spec_level_severity level \<in> {''HIGH'', ''MEDIUM'', ''LOW''}"
  by (simp add: spec_level_severity_def)

lemma spec_score_severity_canon:
  "spec_score_severity score \<in> {''CRITICAL'', ''HIGH'', ''MEDIUM'', ''LOW''}"
  by (cases score) (simp_all add: spec_score_severity_def)

lemma sarif_result_severity:
  assumes "sarif_result rt t rules result = Inr v"
  shows "severity v \<in> {''CRITICAL'', ''HIGH'', ''MEDIUM'', ''LOW''}"
proof -
  from assms obtain level lsev props cwe_v where
    l: "sarif_level_severity level = Inr lsev"
    and s: "sarif_score_override rt lsev props = Inr (severity v)"
    and c: "dict_get props ''cwe'' (JStr '''') = Inr cwe_v"
    by (rule sarif_resultE)
  from c obtain kvs where k: "props = JObj kvs"
    using dict_get_Inr_obj by blast
  from l have ls: "lsev = spec_level_severity level"
    by (rule sarif_level_severity_spec)
  from s have h: "case map_of kvs ''security-severity'' of
              None \<Rightarrow> severity v = spec_level_severity level
            | Some raw \<Rightarrow> \<exists>score. py_float rt raw = Inr score \<and>
                                  severity v = spec_score_severity score"
    unfolding k ls by (rule sarif_score_override_obj)
  show ?thesis
  proof (cases "map_of kvs ''security-severity''")
    case None
    with h show ?thesis using spec_level_severity_canon [of level] by auto
  next
    case (Some raw)
    with h obtain score where "severity v = spec_score_severity score" by auto
    then show ?thesis using spec_score_severity_canon [of score] by simp
  qed
qed

lemma sarif_results_prefix:
  "\<exists>ws. fst (sarif_results rt t rules rs acc) = acc @ ws \<and>
        (\<forall>w \<in> set ws. \<exists>r \<in> set rs. sarif_result rt t rules r = Inr w)"
proof (induction rs arbitrary: acc)
  case Nil
  show ?case by simp
next
  case (Cons r rs)
  show ?case
  proof (cases "sarif_result rt t rules r")
    case (Inl e)
    then show ?thesis by simp
  next
    case (Inr x)
    from Cons.IH [of "acc @ [x]"] obtain ws where
      ws: "fst (sarif_results rt t rules rs (acc @ [x])) = (acc @ [x]) @ ws"
          "\<forall>w \<in> set ws. \<exists>r \<in> set rs. sarif_result rt t rules r = Inr w"
      by blast
    have "fst (sarif_results rt t rules (r # rs) acc) = acc @ (x # ws)"
      using Inr ws(1) by simp
    moreover have "\<forall>w \<in> set (x # ws). \<exists>r' \<in> set (r # rs). sarif_result rt t rules r' = Inr w"
      using Inr ws(2) by auto
    ultimately show ?thesis by blast
  qed
qed

lemma sarif_runs_prefix:
  "\<exists>ws. fst (sarif_runs rt runs acc) = acc @ ws \<and>
        (\<forall>w \<in> set ws. \<exists>t rules r. sarif_result rt t rules r = Inr w)"
proof (induction runs arbitrary: acc)
  case Nil
  show ?case by simp
next
  case (Cons run runs)
  show ?case
  proof (cases "sarif_run_head run")
    case (Inl e)
    then show ?thesis by simp
  next
    case (Inr h)
    obtain t rules results where h: "h = (t, rules, results)"
      by (cases h) auto
    obtain acc' err where r: "sarif_results rt t rules results acc = (acc', err)"
      by (cases "sarif_results rt t rules results acc") auto
    from sarif_results_prefix [of rt t rules results acc] r obtain ws where
      ws: "acc' = acc @ ws" "\<forall>w \<in> set ws. \<exists>t rules r. sarif_result rt t rules r = Inr w"
      by fastforce
    show ?thesis
    proof (cases err)
      case None
      from Cons.IH [of acc'] obtain ws' where
        ws': "fst (sarif_runs rt runs acc') = acc' @ ws'"
             "\<forall>w \<in> set ws'. \<exists>t rules r. sarif_result rt t rules r = Inr w"
        by blast
      have "fst (sarif_runs rt (run # runs) acc) = acc @ (ws @ ws')"
        using Inr h r None ws(1) ws'(1) by simp
      moreover have "\<forall>w \<in> set (ws @ ws'). \<exists>t rules r. sarif_result rt t rules r = Inr w"
        using ws(2) ws'(2) by auto
      ultimately show ?thesis by blast
    next
      case (Some e)
      have "fst (sarif_runs rt (run # runs) acc) = acc @ ws"
        using Inr h r Some ws(1) by simp
      with ws(2) show ?thesis by blast
    qed
  qed
qed

lemma parse_sarif_origin:
  assumes "v \<in> set (parse_sarif rt file)"
  shows "\<exists>t rules r. sarif_result rt t rules r = Inr v"
proof (cases "file")
  case None
  with assms show ?thesis by (simp add: parse_sarif_def sarif_try_def)
next
  case (Some data)
  show ?thesis
  proof (cases "bnd (dict_get data ''runs'' (JArr [])) py_iter")
    case (Inl e)
    with assms Some show ?thesis by (simp add: parse_sarif_def sarif_try_def)
  next
    case (Inr runs)
    with assms Some have "v \<in> set (fst (sarif_runs rt runs []))"
      by (simp add: parse_sarif_def sarif_try_def)
    with sarif_runs_prefix [of rt runs "[]"] show ?thesis by auto
  qed
qed

lemma npm_vulns_prefix:
  "\<exists>ws. fst (npm_vulns es acc) = acc @ ws \<and>
        (\<forall>w \<in> set ws. \<exists>k d. npm_vuln k d = Inr w)"
proof (induction es arbitrary: acc)
  case Nil
  show ?case by simp
next
  case (Cons e es)
  obtain k d where e: "e = (k, d)" by (cases e) auto
  show ?case
  proof (cases "npm_vuln k d")
    case (Inl err)
    then show ?thesis by (simp add: e)
  next
    case (Inr x)
    from Cons.IH [of "acc @ [x]"] obtain ws where
      ws: "fst (npm_vulns es (acc @ [x])) = (acc @ [x]) @ ws"
          "\<forall>w \<in> set ws. \<exists>k d. npm_vuln k d = Inr w"
      by blast
    have "fst (npm_vulns (e # es) acc) = acc @ (x # ws)"
      using Inr ws(1) by (simp add: e)
    moreover have "\<forall>w \<in> set (x # ws). \<exists>k d. npm_vuln k d = Inr w"
      using Inr ws(2) by auto
    ultimately show ?thesis by blast
  qed
qed

lemma parse_npm_audit_origin:
  assumes "v \<in> set (parse_npm_audit file)"
  shows "\<exists>k d. npm_vuln k d = Inr v"
proof (cases "file")
  case None
  with assms show ?thesis by (simp add: parse_npm_audit_def npm_try_def)
next
  case (Some data)
  show ?thesis
  proof (cases "bnd (dict_get data ''vulnerabilities'' (JObj [])) dict_items")
    case (Inl e)
    with assms Some show ?thesis by (simp add: parse_npm_audit_def npm_try_def)
  next
    case (Inr es)
    with assms Some have "v \<in> set (fst (npm_vulns es []))"
      by (simp add: parse_npm_audit_def npm_try_def)
    with npm_vulns_prefix [of es "[]"] show ?thesis by auto
  qed
qed

lemma trivy_vulns_prefix:
  "\<exists>ws. fst (trivy_vulns rt t ds acc) = acc @ ws \<and>
        (\<forall>w \<in> set ws. \<exists>d \<in> set ds. trivy_vuln rt t d = Inr w)"
proof (induction ds arbitrary: acc)
  case Nil
  show ?case by simp
next
  case (Cons d ds)
  show ?case
  proof (cases "trivy_vuln rt t d")
    case (Inl e)
    then show ?thesis by simp
  next
    case (Inr x)
    from Cons.IH [of "acc @ [x]"] obtain ws where
      ws: "fst (trivy_vulns rt t ds (acc @ [x])) = (acc @ [x]) @ ws"
          "\<forall>w \<in> set ws. \<exists>d \<in> set ds. trivy_vuln rt t d = Inr w"
      by blast
    have "fst (trivy_vulns rt t (d # ds) acc) = acc @ (x # ws)"
      using Inr ws(1) by simp
    moreover have "\<forall>w \<in> set (x # ws). \<exists>d' \<in> set (d # ds). trivy_vuln rt t d' = Inr w"
      using Inr ws(2) by auto
    ultimately show ?thesis by blast
  qed
qed


lemma npm_vulnE:
  assumes "npm_vuln k d = Inr v"
  obtains native url where
    "dict_get d ''severity'' (JStr '''') = Inr native"
    "npm_severity native = Inr (severity v)"
    "dict_get d ''url'' (JStr '''') = Inr url"
    "references v = JArr [url]"
  using assms unfolding npm_vuln_def bnd_Inr by fastforce

lemma trivy_vulnE:
  assumes "trivy_vuln rt t d = Inr v"
  obtains native refs where
    "dict_get d ''Severity'' (JStr ''UNKNOWN'') = Inr native"
    "py_upper rt native = Inr (severity v)"
    "dict_get d ''References'' (JArr []) = Inr refs"
    "slice_to 3 refs = Inr (references v)"
  using assms unfolding trivy_vuln_def bnd_Inr by fastforce

lemma npm_severity_canon:
  "npm_severity native = Inr s \<Longrightarrow> s \<in> {''CRITICAL'', ''HIGH'', ''MEDIUM'', ''LOW''}"
  by (auto simp: npm_severity_def split: if_splits)

lemma py_upper_Inr: "py_upper rt native = Inr s \<Longrightarrow> \<exists>label. native = JStr label \<and> s = str_upper rt label"
  by (cases native) simp_all

lemma sarif_references_filter:
  "sarif_references tags = Inr refs \<Longrightarrow> refs = filter looks_like_url tags"
  by (induction tags arbitrary: refs rule: sarif_references.induct)
     (auto simp: bnd_Inr looks_like_url_def)

text \<open>
  Every finding that an adapter returns for a document was built from an element of that
  document: a result of a run, an advisory, or an entry of a scanned target.
\<close>

lemma sarif_runs_source:
  "\<exists>ws. fst (sarif_runs rt runs acc) = acc @ ws \<and>
        (\<forall>w \<in> set ws. \<exists>run \<in> set runs. \<exists>t rules results.
            sarif_run_head run = Inr (t, rules, results) \<and>
            (\<exists>r \<in> set results. sarif_result rt t rules r = Inr w))"
proof (induction runs arbitrary: acc)
  case Nil
  show ?case by simp
next
  case (Cons run runs)
  show ?case
  proof (cases "sarif_run_head run")
    case (Inl e)
    then show ?thesis by simp
  next
    case (Inr h)
    obtain t rules results where h: "h = (t, rules, results)"
      by (cases h) auto
    obtain acc' err where r: "sarif_results rt t rules results acc = (acc', err)"
      by (cases "sarif_results rt t rules results acc") auto
    from sarif_results_prefix [of rt t rules results acc] r obtain ws where
      ws: "acc' = acc @ ws" "\<forall>w \<in> set ws. \<exists>r \<in> set results. sarif_result rt t rules r = Inr w"
      by fastforce
    have here: "\<forall>w \<in> set ws. \<exists>run' \<in> set (run # runs). \<exists>t rules results.
            sarif_run_head run' = Inr (t, rules, results) \<and>
            (\<exists>r \<in> set results. sarif_result rt t rules r = Inr w)"
      using ws(2) Inr h by auto
    show ?thesis
    proof (cases err)
      case None
      from Cons.IH [of acc'] obtain ws' where
        ws': "fst (sarif_runs rt runs acc') = acc' @ ws'"
             "\<forall>w \<in> set ws'. \<exists>run \<in> set runs. \<exists>t rules results.
                sarif_run_head run = Inr (t, rules, results) \<and>
                (\<exists>r \<in> set results. sarif_result rt t rules r = Inr w)"
        by blast
      have "fst (sarif_runs rt (run # runs) acc) = acc @ (ws @ ws')"
        using Inr h r None ws(1) ws'(1) by simp
      moreover have "\<forall>w \<in> set (ws @ ws'). \<exists>run' \<in> set (run # runs). \<exists>t rules results.
            sarif_run_head run' = Inr (t, rules, results) \<and>
            (\<exists>r \<in> set results. sarif_result rt t rules r = Inr w)"
        using here ws'(2) by auto
      ultimately show ?thesis by blast
    next
      case (Some e)
      have "fst (sarif_runs rt (run # runs) acc) = acc @ ws"
        using Inr h r Some ws(1) by simp
      with here show ?thesis by blast
    qed
  qed
qed

lemma parse_sarif_source:
  assumes "v \<in> set (parse_sarif rt f)"
  shows "\<exists>data runs run t rules results r.
           f = Some data \<and> bnd (dict_get data ''runs'' (JArr [])) py_iter = Inr runs \<and>
           run \<in> set runs \<and> sarif_run_head run = Inr (t, rules, results) \<and>
           r \<in> set results \<and> sarif_result rt t rules r = Inr v"
proof (cases "f")
  case None
  with assms show ?thesis by (simp add: parse_sarif_def sarif_try_def)
next
  case (Some data)
  show ?thesis
  proof (cases "bnd (dict_get data ''runs'' (JArr [])) py_iter")
    case (Inl e)
    with assms Some show ?thesis by (simp add: parse_sarif_def sarif_try_def)
  next
    case (Inr runs)
    with assms Some have "v \<in> set (fst (sarif_runs rt runs []))"
      by (simp add: parse_sarif_def sarif_try_def)
    with sarif_runs_source [of rt runs "[]"] obtain run t rules results r where
      "run \<in> set runs" "sarif_run_head run = Inr (t, rules, results)"
      "r \<in> set results" "sarif_result rt t rules r = Inr v"
      by auto
    with Some Inr show ?thesis by blast
  qed
qed

lemma npm_vulns_source:
  "\<exists>ws. fst (npm_vulns es acc) = acc @ ws \<and>
        (\<forall>w \<in> set ws. \<exists>k d. (k, d) \<in> set es \<and> npm_vuln k d = Inr w)"
proof (induction es arbitrary: acc)
  case Nil
  show ?case by simp
next
  case (Cons e es)
  obtain k d where e: "e = (k, d)" by (cases e) auto
  show ?case
  proof (cases "npm_vuln k d")
    case (Inl err)
    then show ?thesis by (simp add: e)
  next
    case (Inr x)
    from Cons.IH [of "acc @ [x]"] obtain ws where
      ws: "fst (npm_vulns es (acc @ [x])) = (acc @ [x]) @ ws"
          "\<forall>w \<in> set ws. \<exists>k d. (k, d) \<in> set es \<and> npm_vuln k d = Inr w"
      by blast
    have "fst (npm_vulns (e # es) acc) = acc @ (x # ws)"
      using Inr ws(1) by (simp add: e)
    moreover have "\<forall>w \<in> set (x # ws). \<exists>k' d'. (k', d') \<in> set (e # es) \<and> npm_vuln k' d' = Inr w"
    proof
      fix w assume "w \<in> set (x # ws)"
      then consider "w = x" | "w \<in> set ws" by auto
      then show "\<exists>k' d'. (k', d') \<in> set (e # es) \<and> npm_vuln k' d' = Inr w"
      proof cases
        case 1
        with Inr e show ?thesis by auto
      next
        case 2
        with ws(2) obtain k' d' where "(k', d') \<in> set es" "npm_vuln k' d' = Inr w" by blast
        then show ?thesis by auto
      qed
    qed
    ultimately show ?thesis by blast
  qed
qed

lemma parse_npm_audit_source:
  assumes "v \<in> set (parse_npm_audit f)"
  shows "\<exists>data entries k d.
           f = Some data \<and>
           bnd (dict_get data ''vulnerabilities'' (JObj [])) dict_items = Inr entries \<and>
           (k, d) \<in> set entries \<and> npm_vuln k d = Inr v"
proof (cases "f")
  case None
  with assms show ?thesis by (simp add: parse_npm_audit_def npm_try_def)
next
  case (Some data)
  show ?thesis
  proof (cases "bnd (dict_get data ''vulnerabilities'' (JObj [])) dict_items")
    case (Inl e)
    with assms Some show ?thesis by (simp add: parse_npm_audit_def npm_try_def)
  next
    case (Inr entries)
    with assms Some have "v \<in> set (fst (npm_vulns entries []))"
      by (simp add: parse_npm_audit_def npm_try_def)
    with npm_vulns_source [of entries "[]"] obtain k d where
      "(k, d) \<in> set entries" "npm_vuln k d = Inr v"
      by auto
    with Some Inr show ?thesis by blast
  qed
qed

lemma trivy_results_source:
  "\<exists>ws. fst (trivy_results rt rs acc) = acc @ ws \<and>
        (\<forall>w \<in> set ws. \<exists>result \<in> set rs. \<exists>t ds.
            trivy_result_head result = Inr (t, ds) \<and>
            (\<exists>d \<in> set ds. trivy_vuln rt t d = Inr w))"
proof (induction rs arbitrary: acc)
  case Nil
  show ?case by simp
next
  case (Cons r rs)
  show ?case
  proof (cases "trivy_result_head r")
    case (Inl e)
    then show ?thesis by simp
  next
    case (Inr h)
    obtain t ds where h: "h = (t, ds)" by (cases h) auto
    obtain acc' err where v: "trivy_vulns rt t ds acc = (acc', err)"
      by (cases "trivy_vulns rt t ds acc") auto
    from trivy_vulns_prefix [of rt t ds acc] v obtain ws where
      ws: "acc' = acc @ ws" "\<forall>w \<in> set ws. \<exists>d \<in> set ds. trivy_vuln rt t d = Inr w"
      by fastforce
    have here: "\<forall>w \<in> set ws. \<exists>result \<in> set (r # rs). \<exists>t ds.
            trivy_result_head result = Inr (t, ds) \<and>
            (\<exists>d \<in> set ds. trivy_vuln rt t d = Inr w)"
      using ws(2) Inr h by auto
    show ?thesis
    proof (cases err)
      case None
      from Cons.IH [of acc'] obtain ws' where
        ws': "fst (trivy_results rt rs acc') = acc' @ ws'"
             "\<forall>w \<in> set ws'. \<exists>result \<in> set rs. \<exists>t ds.
                trivy_result_head result = Inr (t, ds) \<and>
                (\<exists>d \<in> set ds. trivy_vuln rt t d = Inr w)"
        by blast
      have "fst (trivy_results rt (r # rs) acc) = acc @ (ws @ ws')"
        using Inr h v None ws(1) ws'(1) by simp
      moreover have "\<forall>w \<in> set (ws @ ws'). \<exists>result \<in> set (r # rs). \<exists>t ds.
            trivy_result_head result = Inr (t, ds) \<and>
            (\<exists>d \<in> set ds. trivy_vuln rt t d = Inr w)"
        using here ws'(2) by auto
      ultimately show ?thesis by blast
    next
      case (Some e)
      have "fst (trivy_results rt (r # rs) acc) = acc @ ws"
        using Inr h v Some ws(1) by simp
      with here show ?thesis by blast
    qed
  qed
qed

lemma parse_trivy_json_source:
  assumes "v \<in> set (parse_trivy_json rt f)"
  shows "\<exists>data results result t ds d.
           f = Some data \<and> bnd (dict_get data ''Results'' (JArr [])) py_iter = Inr results \<and>
           result \<in> set results \<and> trivy_result_head result = Inr (t, ds) \<and>
           d \<in> set ds \<and> trivy_vuln rt t d = Inr v"
proof (cases "f")
  case None
  with assms show ?thesis by (simp add: parse_trivy_json_def trivy_try_def)
next
  case (Some data)
  show ?thesis
  proof (cases "bnd (dict_get data ''Results'' (JArr [])) py_iter")
    case (Inl e)
    with assms Some show ?thesis by (simp add: parse_trivy_json_def trivy_try_def)
  next
    case (Inr results)
    with assms Some have "v \<in> set (fst (trivy_results rt results []))"
      by (simp add: parse_trivy_json_def trivy_try_def)
    with trivy_results_source [of rt results "[]"] obtain result t ds d where
      "result \<in> set results" "trivy_result_head result = Inr (t, ds)"
      "d \<in> set ds" "trivy_vuln rt t d = Inr v"
      by auto
    with Some Inr show ?thesis by blast
  qed
qed

text \<open>
  Claim C1, as amended. Every finding of the SARIF adapter and of the dependency-audit
  adapter has one of the five canonical severities. Every finding of the image-scan
  adapter is built from an entry of the \<^verbatim>\<open>Vulnerabilities\<close> of a result of the document,
  and its severity is the upper-cased \<^verbatim>\<open>Severity\<close> label of that entry, \<^verbatim>\<open>UNKNOWN\<close> when
  the entry has none, whatever that label is.
\<close>

theorem C1_severity_by_adapter:
  "(\<forall>v \<in> set (parse_sarif rt f1). severity v \<in> set SEVERITY_ORDER) \<and>
   (\<forall>v \<in> set (parse_npm_audit f2). severity v \<in> set SEVERITY_ORDER) \<and>
   (\<forall>v \<in> set (parse_trivy_json rt f3).
      \<exists>data results result t ds d label.
        f3 = Some data \<and> bnd (dict_get data ''Results'' (JArr [])) py_iter = Inr results \<and>
        result \<in> set results \<and> trivy_result_head result = Inr (t, ds) \<and> d \<in> set ds \<and>
        trivy_vuln rt t d = Inr v \<and>
        dict_get d ''Severity'' (JStr ''UNKNOWN'') = Inr (JStr label) \<and>
        severity v = str_upper rt label)"
proof (intro conjI ballI)
  fix v assume "v \<in> set (parse_sarif rt f1)"
  then obtain t rules r where "sarif_result rt t rules r = Inr v"
    using parse_sarif_origin by blast
  then have "severity v \<in> {''CRITICAL'', ''HIGH'', ''MEDIUM'', ''LOW''}"
    by (rule sarif_result_severity)
  then show "severity v \<in> set SEVERITY_ORDER"
    by (auto simp: SEVERITY_ORDER_def)
next
  fix v assume "v \<in> set (parse_npm_audit f2)"
  then obtain k d where "npm_vuln k d = Inr v"
    using parse_npm_audit_origin by blast
  then obtain native where "npm_severity native = Inr (severity v)"
    by (rule npm_vulnE)
  then have "severity v \<in> {''CRITICAL'', ''HIGH'', ''MEDIUM'', ''LOW''}"
    by (rule npm_severity_canon)
  then show "severity v \<in> set SEVERITY_ORDER"
    by (auto simp: SEVERITY_ORDER_def)
next
  fix v assume "v \<in> set (parse_trivy_json rt f3)"
  then obtain data results result t ds d where
    src: "f3 = Some data" "bnd (dict_get data ''Results'' (JArr [])) py_iter = Inr results"
         "result \<in> set results" "trivy_result_head result = Inr (t, ds)" "d \<in> set ds"
    and b: "trivy_vuln rt t d = Inr v"
    using parse_trivy_json_source by blast
  from b obtain native where
    n: "dict_get d ''Severity'' (JStr ''UNKNOWN'') = Inr native"
       "py_upper rt native = Inr (severity v)"
    by (rule trivy_vulnE)
  from n(2) obtain label where l: "native = JStr label" "severity v = str_upper rt label"
    using py_upper_Inr by blast
  from n(1) l(1) have g: "dict_get d ''Severity'' (JStr ''UNKNOWN'') = Inr (JStr label)"
    by simp
  show "\<exists>data results result t ds d label.
        f3 = Some data \<and> bnd (dict_get data ''Results'' (JArr [])) py_iter = Inr results \<and>
        result \<in> set results \<and> trivy_result_head result = Inr (t, ds) \<and> d \<in> set ds \<and>
        trivy_vuln rt t d = Inr v \<and>
        dict_get d ''Severity'' (JStr ''UNKNOWN'') = Inr (JStr label) \<and>
        severity v = str_upper rt label"
    using src b g l(2) by (intro exI conjI)
qed

theorem C1_severity_by_adapter_witness:
  "map severity (parse_sarif ascii_runtime (Some sarif_doc)) = [''CRITICAL''] \<and>
   list_all (\<lambda>v. severity v \<in> set SEVERITY_ORDER) (parse_sarif ascii_runtime (Some sarif_doc)) \<and>
   map severity (parse_npm_audit (Some npm_doc)) = [''MEDIUM''] \<and>
   list_all (\<lambda>v. severity v \<in> set SEVERITY_ORDER) (parse_npm_audit (Some npm_doc)) \<and>
   map vuln_id (parse_trivy_json ascii_runtime (Some trivy_doc)) =
     [JStr ''CVE-2024-0001'', JStr ''CVE-2024-0002''] \<and>
   list_all (\<lambda>v. \<exists>data results result t ds d label.
        Some trivy_doc = Some data \<and>
        bnd (dict_get data ''Results'' (JArr [])) py_iter = Inr results \<and>
        result \<in> set results \<and> trivy_result_head result = Inr (t, ds) \<and> d \<in> set ds \<and>
        trivy_vuln ascii_runtime t d = Inr v \<and>
        dict_get d ''Severity'' (JStr ''UNKNOWN'') = Inr (JStr label) \<and>
        severity v = str_upper ascii_runtime label)
     (parse_trivy_json ascii_runtime (Some trivy_doc))"
proof -
  have a: "map severity (parse_sarif ascii_runtime (Some sarif_doc)) = [''CRITICAL'']"
    by code_simp
  have b: "map severity (parse_npm_audit (Some npm_doc)) = [''MEDIUM'']"
    by code_simp
  have c: "map vuln_id (parse_trivy_json ascii_runtime (Some trivy_doc)) =
     [JStr ''CVE-2024-0001'', JStr ''CVE-2024-0002'']"
    by code_simp
  show ?thesis
    using a b c C1_severity_by_adapter [of ascii_runtime "Some sarif_doc" "Some npm_doc" "Some trivy_doc"]
    unfolding list_all_iff by blast
qed

text \<open>
  The claim as first stated fails: an image-scan entry without a \<^verbatim>\<open>Severity\<close> yields a
  finding of severity \<^verbatim>\<open>UNKNOWN\<close>, which is none of the five.
\<close>

theorem C1_trivy_counterexample:
  "map severity (parse_trivy_json ascii_runtime (Some trivy_doc)) = [''UNKNOWN'', ''HIGH''] \<and>
   ''UNKNOWN'' \<notin> set SEVERITY_ORDER"
  by code_simp

text \<open>
  Claim C5. Whenever the SARIF adapter builds a finding for a result, the severity of the
  finding is decided in two layers. Without a \<^verbatim>\<open>security-severity\<close> entry in the
  properties of the matching rule it is the image of the result's level: \<^verbatim>\<open>error\<close> gives
  HIGH, \<^verbatim>\<open>warning\<close> MEDIUM, \<^verbatim>\<open>note\<close> LOW and anything else MEDIUM. With such an entry
  the score, read with \<^verbatim>\<open>float\<close>, decides alone: at least 9 gives CRITICAL, at least 7
  HIGH, at least 4 MEDIUM and anything else LOW.
\<close>

theorem C5_sarif_severity_layers:
  assumes "sarif_result rt tool_name rules result = Inr v"
  shows "\<exists>rule_id rule level kvs.
           dict_get result ''ruleId'' (JStr '''') = Inr rule_id \<and>
           any_get rules rule_id (JObj []) = Inr rule \<and>
           dict_get result ''level'' (JStr ''warning'') = Inr level \<and>
           dict_get rule ''properties'' (JObj []) = Inr (JObj kvs) \<and>
           (case map_of kvs ''security-severity'' of
              None \<Rightarrow> severity v = spec_level_severity level
            | Some raw \<Rightarrow> \<exists>score. py_float rt raw = Inr score \<and>
                                  severity v = spec_score_severity score)"
proof -
  from assms obtain rule_id rule level lsev props cwe_v where
    a: "dict_get result ''ruleId'' (JStr '''') = Inr rule_id"
       "any_get rules rule_id (JObj []) = Inr rule"
       "dict_get result ''level'' (JStr ''warning'') = Inr level"
    and l: "sarif_level_severity level = Inr lsev"
    and p: "dict_get rule ''properties'' (JObj []) = Inr props"
    and s: "sarif_score_override rt lsev props = Inr (severity v)"
    and c: "dict_get props ''cwe'' (JStr '''') = Inr cwe_v"
    by (rule sarif_resultE)
  from c obtain kvs where k: "props = JObj kvs"
    using dict_get_Inr_obj by blast
  from l have ls: "lsev = spec_level_severity level"
    by (rule sarif_level_severity_spec)
  from s have "case map_of kvs ''security-severity'' of
              None \<Rightarrow> severity v = spec_level_severity level
            | Some raw \<Rightarrow> \<exists>score. py_float rt raw = Inr score \<and>
                                  severity v = spec_score_severity score"
    unfolding k ls by (rule sarif_score_override_obj)
  with a p k show ?thesis by blast
qed

text \<open>
  Scenario A: the result at level \<^verbatim>\<open>error\<close> whose rule has the score 9.5 is CRITICAL.
\<close>

theorem C5_sarif_severity_layers_witness:
  "map severity (parse_sarif ascii_runtime (Some sarif_doc)) = [''CRITICAL''] \<and>
   (\<exists>v. sarif_result ascii_runtime (JStr ''Semgrep'') [(JStr ''R1'', sarif_rule_R1)] sarif_result_ok = Inr v \<and>
     (\<exists>rule_id rule level kvs.
           dict_get sarif_result_ok ''ruleId'' (JStr '''') = Inr rule_id \<and>
           any_get [(JStr ''R1'', sarif_rule_R1)] rule_id (JObj []) = Inr rule \<and>
           dict_get sarif_result_ok ''level'' (JStr ''warning'') = Inr level \<and>
           dict_get rule ''properties'' (JObj []) = Inr (JObj kvs) \<and>
           (case map_of kvs ''security-severity'' of
              None \<Rightarrow> severity v = spec_level_severity level
            | Some raw \<Rightarrow> \<exists>score. py_float ascii_runtime raw = Inr score \<and>
                                  severity v = spec_score_severity score)))"
proof -
  have a: "map severity (parse_sarif ascii_runtime (Some sarif_doc)) = [''CRITICAL'']"
    by code_simp
  have "case sarif_result ascii_runtime (JStr ''Semgrep'') [(JStr ''R1'', sarif_rule_R1)] sarif_result_ok
        of Inl e \<Rightarrow> False | Inr v \<Rightarrow> True"
    by code_simp
  then obtain v where
    h: "sarif_result ascii_runtime (JStr ''Semgrep'') [(JStr ''R1'', sarif_rule_R1)] sarif_result_ok = Inr v"
    by (auto split: sum.splits)
  from C5_sarif_severity_layers [OF h] h a show ?thesis by blast
qed

section \<open>References\<close>

text \<open>
  Claim C8, as amended. Every finding is built from an element of its document, and its
  references come from that element. For the SARIF adapter they are the tags of the rule
  of the finding's result that start with \<^verbatim>\<open>http\<close>, in their order, and nothing else. For
  the dependency-audit adapter they are the list of one element that holds the \<^verbatim>\<open>url\<close> of
  the finding's advisory, the empty string when it has none. For the image-scan adapter
  they are the first three \<^verbatim>\<open>References\<close> of the finding's entry, unfiltered.
\<close>

theorem C8_references_by_adapter:
  "(\<forall>v \<in> set (parse_sarif rt f1).
      \<exists>data runs run t rules results result rule_id rule props tags tag_list.
        f1 = Some data \<and> bnd (dict_get data ''runs'' (JArr [])) py_iter = Inr runs \<and>
        run \<in> set runs \<and> sarif_run_head run = Inr (t, rules, results) \<and>
        result \<in> set results \<and> sarif_result rt t rules result = Inr v \<and>
        dict_get result ''ruleId'' (JStr '''') = Inr rule_id \<and>
        any_get rules rule_id (JObj []) = Inr rule \<and>
        dict_get rule ''properties'' (JObj []) = Inr props \<and>
        dict_get props ''tags'' (JArr []) = Inr tags \<and> py_iter tags = Inr tag_list \<and>
        references v = JArr (filter looks_like_url tag_list)) \<and>
   (\<forall>v \<in> set (parse_npm_audit f2).
      \<exists>data entries k d url.
        f2 = Some data \<and>
        bnd (dict_get data ''vulnerabilities'' (JObj [])) dict_items = Inr entries \<and>
        (k, d) \<in> set entries \<and> npm_vuln k d = Inr v \<and>
        dict_get d ''url'' (JStr '''') = Inr url \<and> references v = JArr [url]) \<and>
   (\<forall>v \<in> set (parse_trivy_json rt f3).
      \<exists>data results result t ds d refs.
        f3 = Some data \<and> bnd (dict_get data ''Results'' (JArr [])) py_iter = Inr results \<and>
        result \<in> set results \<and> trivy_result_head result = Inr (t, ds) \<and> d \<in> set ds \<and>
        trivy_vuln rt t d = Inr v \<and>
        dict_get d ''References'' (JArr []) = Inr refs \<and>
        slice_to 3 refs = Inr (references v))"
proof (intro conjI ballI)
  fix v assume "v \<in> set (parse_sarif rt f1)"
  then obtain data runs run t rules results result where
    src: "f1 = Some data" "bnd (dict_get data ''runs'' (JArr [])) py_iter = Inr runs"
         "run \<in> set runs" "sarif_run_head run = Inr (t, rules, results)"
         "result \<in> set results"
    and b: "sarif_result rt t rules result = Inr v"
    using parse_sarif_source by blast
  from b obtain rule_id rule props tags tag_list refs where
    h: "dict_get result ''ruleId'' (JStr '''') = Inr rule_id"
       "any_get rules rule_id (JObj []) = Inr rule"
       "dict_get rule ''properties'' (JObj []) = Inr props"
       "dict_get props ''tags'' (JArr []) = Inr tags" "py_iter tags = Inr tag_list"
    and r: "sarif_references tag_list = Inr refs" "references v = JArr refs"
    by (rule sarif_resultE)
  from r(1) have "refs = filter looks_like_url tag_list"
    by (rule sarif_references_filter)
  with r(2) have g: "references v = JArr (filter looks_like_url tag_list)"
    by simp
  show "\<exists>data runs run t rules results result rule_id rule props tags tag_list.
        f1 = Some data \<and> bnd (dict_get data ''runs'' (JArr [])) py_iter = Inr runs \<and>
        run \<in> set runs \<and> sarif_run_head run = Inr (t, rules, results) \<and>
        result \<in> set results \<and> sarif_result rt t rules result = Inr v \<and>
        dict_get result ''ruleId'' (JStr '''') = Inr rule_id \<and>
        any_get rules rule_id (JObj []) = Inr rule \<and>
        dict_get rule ''properties'' (JObj []) = Inr props \<and>
        dict_get props ''tags'' (JArr []) = Inr tags \<and> py_iter tags = Inr tag_list \<and>
        references v = JArr (filter looks_like_url tag_list)"
    using src b h g by (intro exI conjI)
next
  fix v assume "v \<in> set (parse_npm_audit f2)"
  then obtain data entries k d where
    src: "f2 = Some data"
         "bnd (dict_get data ''vulnerabilities'' (JObj [])) dict_items = Inr entries"
         "(k, d) \<in> set entries"
    and b: "npm_vuln k d = Inr v"
    using parse_npm_audit_source by blast
  from b obtain url where
    u: "dict_get d ''url'' (JStr '''') = Inr url" "references v = JArr [url]"
    by (rule npm_vulnE)
  show "\<exists>data entries k d url.
        f2 = Some data \<and>
        bnd (dict_get data ''vulnerabilities'' (JObj [])) dict_items = Inr entries \<and>
        (k, d) \<in> set entries \<and> npm_vuln k d = Inr v \<and>
        dict_get d ''url'' (JStr '''') = Inr url \<and> references v = JArr [url]"
    using src b u by (intro exI conjI)
next
  fix v assume "v \<in> set (parse_trivy_json rt f3)"
  then obtain data results result t ds d where
    src: "f3 = Some data" "bnd (dict_get data ''Results'' (JArr [])) py_iter = Inr results"
         "result \<in> set results" "trivy_result_head result = Inr (t, ds)" "d \<in> set ds"
    and b: "trivy_vuln rt t d = Inr v"
    using parse_trivy_json_source by blast
  from b obtain refs where
    u: "dict_get d ''References'' (JArr []) = Inr refs" "slice_to 3 refs = Inr (references v)"
    by (rule trivy_vulnE)
  show "\<exists>data results result t ds d refs.
        f3 = Some data \<and> bnd (dict_get data ''Results'' (JArr [])) py_iter = Inr results \<and>
        result \<in> set results \<and> trivy_result_head result = Inr (t, ds) \<and> d \<in> set ds \<and>
        trivy_vuln rt t d = Inr v \<and>
        dict_get d ''References'' (JArr []) = Inr refs \<and>
        slice_to 3 refs = Inr (references v)"
    using src b u by (intro exI conjI)
qed

theorem C8_references_by_adapter_witness:
  "map references (parse_sarif ascii_runtime (Some sarif_doc)) = [JArr [JStr ''https://cwe.example/89'']] \<and>
   list_all (\<lambda>v. \<exists>data runs run t rules results result rule_id rule props tags tag_list.
        Some sarif_doc = Some data \<and> bnd (dict_get data ''runs'' (JArr [])) py_iter = Inr runs \<and>
        run \<in> set runs \<and> sarif_run_head run = Inr (t, rules, results) \<and>
        result \<in> set results \<and> sarif_result ascii_runtime t rules result = Inr v \<and>
        dict_get result ''ruleId'' (JStr '''') = Inr rule_id \<and>
        any_get rules rule_id (JObj []) = Inr rule \<and>
        dict_get rule ''properties'' (JObj []) = Inr props \<and>
        dict_get props ''tags'' (JArr []) = Inr tags \<and> py_iter tags = Inr tag_list \<and>
        references v = JArr (filter looks_like_url tag_list))
     (parse_sarif ascii_runtime (Some sarif_doc)) \<and>
   map references (parse_npm_audit (Some npm_doc)) = [JArr [JStr '''']] \<and>
   list_all (\<lambda>v. \<exists>data entries k d url.
        Some npm_doc = Some data \<and>
        bnd (dict_get data ''vulnerabilities'' (JObj [])) dict_items = Inr entries \<and>
        (k, d) \<in> set entries \<and> npm_vuln k d = Inr v \<and>
        dict_get d ''url'' (JStr '''') = Inr url \<and> references v = JArr [url])
     (parse_npm_audit (Some npm_doc)) \<and>
   map vuln_id (parse_trivy_json ascii_runtime (Some trivy_doc)) =
     [JStr ''CVE-2024-0001'', JStr ''CVE-2024-0002''] \<and>
   list_all (\<lambda>v. \<exists>data results result t ds d refs.
        Some trivy_doc = Some data \<and>
        bnd (dict_get data ''Results'' (JArr [])) py_iter = Inr results \<and>
        result \<in> set results \<and> trivy_result_head result = Inr (t, ds) \<and> d \<in> set ds \<and>
        trivy_vuln ascii_runtime t d = Inr v \<and>
        dict_get d ''References'' (JArr []) = Inr refs \<and>
        slice_to 3 refs = Inr (references v))
     (parse_trivy_json ascii_runtime (Some trivy_doc))"
proof -
  have a: "map references (parse_sarif ascii_runtime (Some sarif_doc)) = [JArr [JStr ''https://cwe.example/89'']]"
    by code_simp
  have b: "map references (parse_npm_audit (Some npm_doc)) = [JArr [JStr '''']]"
    by code_simp
  have c: "map vuln_id (parse_trivy_json ascii_runtime (Some trivy_doc)) =
     [JStr ''CVE-2024-0001'', JStr ''CVE-2024-0002'']"
    by code_simp
  note t = C8_references_by_adapter [of ascii_runtime "Some sarif_doc" "Some npm_doc" "Some trivy_doc"]
  from t have d: "\<forall>v \<in> set (parse_sarif ascii_runtime (Some sarif_doc)).
      \<exists>data runs run t rules results result rule_id rule props tags tag_list.
        Some sarif_doc = Some data \<and> bnd (dict_get data ''runs'' (JArr [])) py_iter = Inr runs \<and>
        run \<in> set runs \<and> sarif_run_head run = Inr (t, rules, results) \<and>
        result \<in> set results \<and> sarif_result ascii_runtime t rules result = Inr v \<and>
        dict_get result ''ruleId'' (JStr '''') = Inr rule_id \<and>
        any_get rules rule_id (JObj []) = Inr rule \<and>
        dict_get rule ''properties'' (JObj []) = Inr props \<and>
        dict_get props ''tags'' (JArr []) = Inr tags \<and> py_iter tags = Inr tag_list \<and>
        references v = JArr (filter looks_like_url tag_list)"
    by (rule conjunct1)
  from t have e: "\<forall>v \<in> set (parse_npm_audit (Some npm_doc)).
      \<exists>data entries k d url.
        Some npm_doc = Some data \<and>
        bnd (dict_get data ''vulnerabilities'' (JObj [])) dict_items = Inr entries \<and>
        (k, d) \<in> set entries \<and> npm_vuln k d = Inr v \<and>
        dict_get d ''url'' (JStr '''') = Inr url \<and> references v = JArr [url]"
    by (rule conjunct1 [OF conjunct2])
  from t have f: "\<forall>v \<in> set (parse_trivy_json ascii_runtime (Some trivy_doc)).
      \<exists>data results result t ds d refs.
        Some trivy_doc = Some data \<and>
        bnd (dict_get data ''Results'' (JArr [])) py_iter = Inr results \<and>
        result \<in> set results \<and> trivy_result_head result = Inr (t, ds) \<and> d \<in> set ds \<and>
        trivy_vuln ascii_runtime t d = Inr v \<and>
        dict_get d ''References'' (JArr []) = Inr refs \<and>
        slice_to 3 refs = Inr (references v)"
    by (rule conjunct2 [OF conjunct2])
  show ?thesis
    unfolding list_all_iff using a b c d e f by (intro conjI)
qed

text \<open>
  The claim as first stated fails: an advisory without \<^verbatim>\<open>url\<close> gets the references
  \<^verbatim>\<open>['']\<close>, and an image-scan entry keeps a reference that is no link.
\<close>

theorem C8_references_counterexample:
  "map references (parse_npm_audit (Some npm_doc)) = [JArr [JStr '''']] \<and>
   \<not> looks_like_url (JStr '''') \<and>
   map references (parse_trivy_json ascii_runtime (Some trivy_doc)) =
     [JArr [], JArr [JStr ''https://a.example/1'', JStr ''see vendor note'', JStr ''https://a.example/3'']] \<and>
   \<not> looks_like_url (JStr ''see vendor note'')"
  by code_simp

section \<open>Failures of one document\<close>

lemma append_result_empty: "append_result env name [] g = g"
  by (simp add: append_result_def)








section \<open>Summaries and totals\<close>

lemma map_of_count_add:
  "map_of (count_add d k n) s =
     (if s = k then Some ((case map_of d k of None \<Rightarrow> 0 | Some c \<Rightarrow> c) + n) else map_of d s)"
  by (induction d) auto

lemma count_get_count_add:
  "count_get (count_add d k n) s 0 = count_get d s 0 + (if s = k then n else 0)"
  by (simp add: count_get_def map_of_count_add split: option.splits)

lemma keys_count_add: "fst ` set (count_add d k n) = insert k (fst ` set d)"
  by (induction d) force+

lemma distinct_count_add: "distinct (map fst d) \<Longrightarrow> distinct (map fst (count_add d k n))"
  by (induction d) (auto simp: keys_count_add)

lemma sum_count_add: "sum_list (map snd (count_add d k n)) = sum_list (map snd d) + n"
  by (induction d) auto

lemma map_of_fold_severity:
  "map_of (fold (\<lambda>v d. count_add d (severity v) 1) vs d) s =
     (if filter (\<lambda>v. severity v = s) vs = [] then map_of d s
      else Some ((case map_of d s of None \<Rightarrow> 0 | Some c \<Rightarrow> c) +
                 int (length (filter (\<lambda>v. severity v = s) vs))))"
proof (induction vs arbitrary: d)
  case Nil
  show ?case by simp
next
  case (Cons v vs)
  show ?case
    by (simp add: Cons.IH map_of_count_add)
qed

lemma map_of_summarize:
  "map_of (summarize vs) s =
     (if filter (\<lambda>v. severity v = s) vs = [] then None
      else Some (int (length (filter (\<lambda>v. severity v = s) vs))))"
  by (simp add: summarize_def map_of_fold_severity)

lemma count_get_summarize:
  "count_get (summarize vs) s 0 = int (length (filter (\<lambda>v. severity v = s) vs))"
  by (simp add: count_get_def map_of_summarize)

lemma sum_fold_severity:
  "sum_list (map snd (fold (\<lambda>v d. count_add d (severity v) 1) vs d)) =
     sum_list (map snd d) + int (length vs)"
  by (induction vs arbitrary: d) (simp_all add: sum_count_add)

lemma sum_summarize: "sum_list (map snd (summarize vs)) = int (length vs)"
  by (simp add: summarize_def sum_fold_severity)

lemma distinct_fold_severity:
  "distinct (map fst d) \<Longrightarrow> distinct (map fst (fold (\<lambda>v d. count_add d (severity v) 1) vs d))"
  by (induction vs arbitrary: d) (simp_all add: distinct_count_add)

lemma distinct_summarize: "distinct (map fst (summarize vs))"
  by (simp add: summarize_def distinct_fold_severity)

lemma append_result_results:
  "self_scan_results (append_result env name vs g) =
     self_scan_results g @
       (if vs = [] then []
        else [\<lparr>scanner = name, timestamp = now env (clock_reads g),
               vulnerabilities = vs, summary = summarize vs\<rparr>])"
  by (simp add: append_result_def)

lemma append_result_collected:
  "list_all collected (self_scan_results g) \<Longrightarrow>
     list_all collected (self_scan_results (append_result env name vs g))"
  by (simp add: append_result_results collected_def)

lemma collect_sarif_collected:
  "list_all collected (self_scan_results g) \<Longrightarrow>
     list_all collected (self_scan_results (collect_sarif rt env files g))"
  by (induction files arbitrary: g) (auto simp: append_result_collected)

lemma collect_npm_collected:
  "list_all collected (self_scan_results g) \<Longrightarrow>
     list_all collected (self_scan_results (collect_npm env files g))"
  by (induction files arbitrary: g) (auto simp: append_result_collected)

lemma collect_trivy_collected:
  "list_all collected (self_scan_results g) \<Longrightarrow>
     list_all collected (self_scan_results (collect_trivy rt env files g))"
  by (induction files arbitrary: g) (auto simp: append_result_collected)

lemma collect_results_collected:
  "list_all collected (self_scan_results g) \<Longrightarrow>
     list_all collected (self_scan_results (collect_results rt env dir g))"
  by (simp add: collect_results_def collect_sarif_collected collect_npm_collected
        collect_trivy_collected)

lemma collect_results_new_collected:
  "list_all collected (self_scan_results (collect_results rt env dir new_generator))"
  by (rule collect_results_collected) (simp add: new_generator_def)

text \<open>
  Claim C4. In every \<^verbatim>\<open>ScanResult\<close> that the collector builds, the summary holds for each
  severity the number of findings of that severity: the key is present exactly when
  there is such a finding, and \<^verbatim>\<open>summary.get(s, 0)\<close> is the number in every case. The
  values of the summary add up to the number of findings.
\<close>

theorem C4_summary_counts:
  "\<forall>r \<in> set (self_scan_results (collect_results rt env dir new_generator)).
     (\<forall>s. count_get (summary r) s 0 =
            int (length (filter (\<lambda>v. severity v = s) (vulnerabilities r))) \<and>
          map_of (summary r) s =
            (if filter (\<lambda>v. severity v = s) (vulnerabilities r) = [] then None
             else Some (int (length (filter (\<lambda>v. severity v = s) (vulnerabilities r)))))) \<and>
     sum_list (map snd (summary r)) = int (length (vulnerabilities r))"
proof
  fix r assume "r \<in> set (self_scan_results (collect_results rt env dir new_generator))"
  with collect_results_new_collected [of rt env dir] have "collected r"
    by (simp add: list_all_iff)
  then have s: "summary r = summarize (vulnerabilities r)"
    by (simp add: collected_def)
  show "(\<forall>s. count_get (summary r) s 0 =
            int (length (filter (\<lambda>v. severity v = s) (vulnerabilities r))) \<and>
          map_of (summary r) s =
            (if filter (\<lambda>v. severity v = s) (vulnerabilities r) = [] then None
             else Some (int (length (filter (\<lambda>v. severity v = s) (vulnerabilities r)))))) \<and>
     sum_list (map snd (summary r)) = int (length (vulnerabilities r))"
    unfolding s by (simp add: count_get_summarize map_of_summarize sum_summarize)
qed

theorem C4_summary_counts_witness:
  "map summary (self_scan_results (collect_results ascii_runtime sample_env sample_dir new_generator)) =
     [[(''CRITICAL'', 1)], [(''MEDIUM'', 1)], [(''UNKNOWN'', 1), (''HIGH'', 1)]] \<and>
   list_all (\<lambda>r.
     (\<forall>s. count_get (summary r) s 0 =
            int (length (filter (\<lambda>v. severity v = s) (vulnerabilities r))) \<and>
          map_of (summary r) s =
            (if filter (\<lambda>v. severity v = s) (vulnerabilities r) = [] then None
             else Some (int (length (filter (\<lambda>v. severity v = s) (vulnerabilities r)))))) \<and>
     sum_list (map snd (summary r)) = int (length (vulnerabilities r)))
    (self_scan_results (collect_results ascii_runtime sample_env sample_dir new_generator))"
proof -
  have a: "map summary (self_scan_results (collect_results ascii_runtime sample_env sample_dir new_generator)) =
     [[(''CRITICAL'', 1)], [(''MEDIUM'', 1)], [(''UNKNOWN'', 1), (''HIGH'', 1)]]"
    by code_simp
  show ?thesis
    using a C4_summary_counts [of ascii_runtime sample_env sample_dir]
    unfolding list_all_iff by blast
qed

text \<open>
  Claim C7. No \<^verbatim>\<open>ScanResult\<close> built by the collector, and so none in the report of a
  run, has an empty list of findings: a document for which the adapter returns no
  finding leaves the collector as it was.
\<close>

theorem C7_no_empty_scan_result:
  "(\<forall>r \<in> set (self_scan_results (collect_results rt env dir new_generator)).
      vulnerabilities r \<noteq> []) \<and>
   (main_report rt env dir = Some R \<longrightarrow> (\<forall>r \<in> set (scan_results R). vulnerabilities r \<noteq> [])) \<and>
   (parse_sarif rt file = [] \<longrightarrow>
      collect_sarif rt env ((p, file) # rest) g = collect_sarif rt env rest g) \<and>
   (parse_npm_audit file = [] \<longrightarrow>
      collect_npm env ((p, file) # rest) g = collect_npm env rest g) \<and>
   (parse_trivy_json rt file = [] \<longrightarrow>
      collect_trivy rt env ((p, file) # rest) g = collect_trivy rt env rest g)"
proof -
  have a: "\<forall>r \<in> set (self_scan_results (collect_results rt env dir new_generator)).
      vulnerabilities r \<noteq> []"
    using collect_results_new_collected [of rt env dir]
    by (simp add: list_all_iff collected_def)
  have b: "main_report rt env dir = Some R \<longrightarrow> (\<forall>r \<in> set (scan_results R). vulnerabilities r \<noteq> [])"
    using a by (auto simp: main_report_def Let_def generate_report_def split: if_splits)
  show ?thesis
    using a b by (simp add: append_result_empty)
qed

theorem C7_no_empty_scan_result_witness:
  "main_report ascii_runtime sample_env sample_dir = Some sample_report \<and>
   map (\<lambda>r. length (vulnerabilities r)) (scan_results sample_report) = [1, 1, 2] \<and>
   list_all (\<lambda>r. vulnerabilities r \<noteq> []) (scan_results sample_report) \<and>
   parse_sarif ascii_runtime (Some (JObj [])) = [] \<and>
   collect_sarif ascii_runtime sample_env
     ((sample_path ''empty'' ''.sarif'', Some (JObj [])) # sarif_files sample_dir) new_generator =
   collect_sarif ascii_runtime sample_env (sarif_files sample_dir) new_generator \<and>
   parse_npm_audit (Some (JObj [])) = [] \<and>
   collect_npm sample_env
     ((sample_path ''npm-audit'' ''.json'', Some (JObj [])) # npm_files sample_dir) new_generator =
   collect_npm sample_env (npm_files sample_dir) new_generator \<and>
   parse_trivy_json ascii_runtime (Some (JObj [])) = [] \<and>
   collect_trivy ascii_runtime sample_env
     ((sample_path ''trivy-empty'' ''.json'', Some (JObj [])) # trivy_files sample_dir) new_generator =
   collect_trivy ascii_runtime sample_env (trivy_files sample_dir) new_generator"
proof -
  have a: "main_report ascii_runtime sample_env sample_dir = Some sample_report"
    by code_simp
  have b: "map (\<lambda>r. length (vulnerabilities r)) (scan_results sample_report) = [1, 1, 2]"
    by code_simp
  have c: "parse_sarif ascii_runtime (Some (JObj [])) = []"
      "parse_npm_audit (Some (JObj [])) = []"
      "parse_trivy_json ascii_runtime (Some (JObj [])) = []"
    by code_simp+
  have d: "list_all (\<lambda>r. vulnerabilities r \<noteq> []) (scan_results sample_report)"
    using a C7_no_empty_scan_result [of ascii_runtime sample_env sample_dir sample_report]
    unfolding list_all_iff by blast
  have e: "collect_sarif ascii_runtime sample_env
     ((sample_path ''empty'' ''.sarif'', Some (JObj [])) # sarif_files sample_dir) new_generator =
   collect_sarif ascii_runtime sample_env (sarif_files sample_dir) new_generator"
    using c(1) C7_no_empty_scan_result [of ascii_runtime sample_env sample_dir sample_report
        "Some (JObj [])" "sample_path ''empty'' ''.sarif''" "sarif_files sample_dir" new_generator]
    by blast
  have f: "collect_npm sample_env
     ((sample_path ''npm-audit'' ''.json'', Some (JObj [])) # npm_files sample_dir) new_generator =
   collect_npm sample_env (npm_files sample_dir) new_generator"
    using c(2) C7_no_empty_scan_result [of ascii_runtime sample_env sample_dir sample_report
        "Some (JObj [])" "sample_path ''npm-audit'' ''.json''" "npm_files sample_dir" new_generator]
    by blast
  have g: "collect_trivy ascii_runtime sample_env
     ((sample_path ''trivy-empty'' ''.json'', Some (JObj [])) # trivy_files sample_dir) new_generator =
   collect_trivy ascii_runtime sample_env (trivy_files sample_dir) new_generator"
    using c(3) C7_no_empty_scan_result [of ascii_runtime sample_env sample_dir sample_report
        "Some (JObj [])" "sample_path ''trivy-empty'' ''.json''" "trivy_files sample_dir" new_generator]
    by blast
  show ?thesis using a b c d e f g by simp
qed

lemma count_get_fold_items:
  "count_get (fold (\<lambda>item t. count_add t (fst item) (snd item)) items t) s 0 =
     count_get t s 0 + sum_list (map snd (filter (\<lambda>i. fst i = s) items))"
  by (induction items arbitrary: t) (simp_all add: count_get_count_add)

lemma sum_filter_distinct:
  "distinct (map fst items) \<Longrightarrow>
     sum_list (map snd (filter (\<lambda>i. fst i = s) items)) = count_get items s 0"
proof (induction items)
  case Nil
  show ?case by (simp add: count_get_def)
next
  case (Cons i items)
  obtain k c where i: "i = (k, c)" by (cases i) auto
  from Cons.prems have d: "distinct (map fst items)" and k: "k \<notin> fst ` set items"
    by (simp_all add: i)
  show ?case
  proof (cases "k = s")
    case True
    with k have "filter (\<lambda>i. fst i = s) items = []"
      by (auto simp: filter_empty_conv)
    with True show ?thesis by (simp add: i count_get_def)
  next
    case False
    with Cons.IH [OF d] show ?thesis by (simp add: i count_get_def)
  qed
qed

lemma count_get_add_summary:
  "distinct (map fst (summary r)) \<Longrightarrow>
     count_get (add_summary r t) s 0 = count_get t s 0 + count_get (summary r) s 0"
  by (simp add: add_summary_def count_get_fold_items sum_filter_distinct)

lemma count_get_fold_add_summary:
  "\<forall>r \<in> set rs. distinct (map fst (summary r)) \<Longrightarrow>
     count_get (fold add_summary rs t) s 0 =
       count_get t s 0 + sum_list (map (\<lambda>r. count_get (summary r) s 0) rs)"
  by (induction rs arbitrary: t) (simp_all add: count_get_add_summary)

lemma keys_fold_items:
  "fst ` set (fold (\<lambda>item t. count_add t (fst item) (snd item)) items t) =
     fst ` set t \<union> fst ` set items"
proof (induction items arbitrary: t)
  case Nil
  show ?case by simp
next
  case (Cons i items)
  have "fst ` set (fold (\<lambda>item t. count_add t (fst item) (snd item)) (i # items) t) =
        fst ` set (count_add t (fst i) (snd i)) \<union> fst ` set items"
    by (simp add: Cons.IH)
  also have "\<dots> = fst ` set t \<union> fst ` set (i # items)"
    unfolding keys_count_add by auto
  finally show ?case .
qed

lemma keys_fold_add_summary:
  "fst ` set (fold add_summary rs t) =
     fst ` set t \<union> (\<Union>r \<in> set rs. fst ` set (summary r))"
proof (induction rs arbitrary: t)
  case Nil
  show ?case by simp
next
  case (Cons r rs)
  have "fst ` set (fold add_summary (r # rs) t) =
        fst ` set (add_summary r t) \<union> (\<Union>r \<in> set rs. fst ` set (summary r))"
    by (simp add: Cons.IH)
  also have "\<dots> = fst ` set t \<union> (\<Union>r \<in> set (r # rs). fst ` set (summary r))"
    unfolding add_summary_def keys_fold_items by auto
  finally show ?case .
qed

lemma count_get_empty: "count_get [] s dflt = dflt"
  by (simp add: count_get_def)

lemma collected_distinct: "collected r \<Longrightarrow> distinct (map fst (summary r))"
  by (simp add: collected_def distinct_summarize)

text \<open>
  Claim C3. In the report that \<^verbatim>\<open>generate_report\<close> builds, the total of every severity
  is the sum of \<^verbatim>\<open>summary.get(s, 0)\<close> over the scan results, and a severity is a key of
  the totals exactly when it is a key of some summary. The sum is taken over summaries
  that are dicts, with no key twice; the summaries that the collector builds are.
\<close>

theorem C3_totals_are_sums:
  "((\<forall>r \<in> set (self_scan_results g). distinct (map fst (summary r))) \<longrightarrow>
      count_get (total_vulnerabilities (generate_report rt env g)) s 0 =
        sum_list (map (\<lambda>r. count_get (summary r) s 0) (scan_results (generate_report rt env g)))) \<and>
   ((map_of (total_vulnerabilities (generate_report rt env g)) s = None) =
      (\<forall>r \<in> set (scan_results (generate_report rt env g)). map_of (summary r) s = None)) \<and>
   (\<forall>r \<in> set (self_scan_results (collect_results rt env dir new_generator)).
      distinct (map fst (summary r)))"
proof (intro conjI impI)
  assume "\<forall>r \<in> set (self_scan_results g). distinct (map fst (summary r))"
  then show "count_get (total_vulnerabilities (generate_report rt env g)) s 0 =
        sum_list (map (\<lambda>r. count_get (summary r) s 0) (scan_results (generate_report rt env g)))"
    by (simp add: generate_report_def totals_def count_get_fold_add_summary count_get_empty)
next
  show "(map_of (total_vulnerabilities (generate_report rt env g)) s = None) =
      (\<forall>r \<in> set (scan_results (generate_report rt env g)). map_of (summary r) s = None)"
    by (simp add: generate_report_def totals_def map_of_eq_None_iff keys_fold_add_summary)
next
  show "\<forall>r \<in> set (self_scan_results (collect_results rt env dir new_generator)).
      distinct (map fst (summary r))"
    using collect_results_new_collected [of rt env dir]
    by (simp add: list_all_iff collected_distinct)
qed

theorem C3_totals_are_sums_witness:
  "total_vulnerabilities sample_report =
     [(''CRITICAL'', 1), (''MEDIUM'', 1), (''UNKNOWN'', 1), (''HIGH'', 1)] \<and>
   list_all (\<lambda>r. distinct (map fst (summary r))) (self_scan_results sample_generator) \<and>
   count_get (total_vulnerabilities sample_report) ''HIGH'' 0 =
     sum_list (map (\<lambda>r. count_get (summary r) ''HIGH'' 0) (scan_results sample_report)) \<and>
   sum_list (map (\<lambda>r. count_get (summary r) ''HIGH'' 0) (scan_results sample_report)) = 1 \<and>
   map_of (total_vulnerabilities sample_report) ''INFO'' = None \<and>
   list_all (\<lambda>r. map_of (summary r) ''INFO'' = None) (scan_results sample_report)"
proof -
  have a: "total_vulnerabilities sample_report =
     [(''CRITICAL'', 1), (''MEDIUM'', 1), (''UNKNOWN'', 1), (''HIGH'', 1)]"
    by code_simp
  have b: "list_all (\<lambda>r. distinct (map fst (summary r))) (self_scan_results sample_generator)"
    using C3_totals_are_sums [of sample_generator ascii_runtime sample_env "''HIGH''" sample_dir]
    unfolding list_all_iff sample_generator_def by blast
  have c: "count_get (total_vulnerabilities sample_report) ''HIGH'' 0 =
     sum_list (map (\<lambda>r. count_get (summary r) ''HIGH'' 0) (scan_results sample_report))"
    using b C3_totals_are_sums [of sample_generator ascii_runtime sample_env "''HIGH''" sample_dir]
    unfolding list_all_iff sample_report_def by blast
  have d: "count_get (total_vulnerabilities sample_report) ''HIGH'' 0 = 1"
    by (simp add: a count_get_def)
  have e: "map_of (total_vulnerabilities sample_report) ''INFO'' = None"
    by (simp add: a)
  have f: "list_all (\<lambda>r. map_of (summary r) ''INFO'' = None) (scan_results sample_report)"
    using e C3_totals_are_sums [of sample_generator ascii_runtime sample_env "''INFO''" sample_dir]
    unfolding list_all_iff sample_report_def by blast
  show ?thesis using a b c d e f by simp
qed

section \<open>Recommendations\<close>

lemma messages_differ:
  "critical_message rt n \<noteq> reassurance_message"
  "high_message rt n \<noteq> reassurance_message"
  "sast_message \<noteq> reassurance_message"
  "reassurance_message \<noteq> critical_message rt n"
  "reassurance_message \<noteq> high_message rt n"
  "reassurance_message \<noteq> sast_message"
  by (simp_all add: critical_message_def high_message_def sast_message_def reassurance_message_def)

lemma recommendations_reassurance:
  "(reassurance_message \<in> set (generate_recommendations rt rs)) =
     (\<not> 0 < total_of ''CRITICAL'' rs \<and> \<not> 0 < total_of ''HIGH'' rs \<and> has_semgrep rt rs)"
  by (auto simp: generate_recommendations_def Let_def messages_differ)

lemma recommendations_only_reassurance:
  "reassurance_message \<in> set (generate_recommendations rt rs) \<Longrightarrow>
     generate_recommendations rt rs = [reassurance_message]"
  by (auto simp: generate_recommendations_def Let_def messages_differ split: if_splits)

lemma total_of_collected_nonneg:
  "list_all collected rs \<Longrightarrow> 0 \<le> total_of s rs"
  unfolding total_of_def
  by (rule sum_list_nonneg) (auto simp: list_all_iff collected_def count_get_summarize)

text \<open>
  Claim C6. The recommendations contain the reassurance message exactly when none of
  the first three rules fired: the total of CRITICAL is not positive, the total of HIGH
  is not positive, and the name of some scanner contains \<^verbatim>\<open>semgrep\<close> in lower case.
  The list is then that message alone. For the scan results of a run the totals are
  counts, and not positive means zero.
\<close>

theorem C6_reassurance_alone:
  "((reassurance_message \<in> set (generate_recommendations rt rs)) =
      (\<not> 0 < total_of ''CRITICAL'' rs \<and> \<not> 0 < total_of ''HIGH'' rs \<and> has_semgrep rt rs)) \<and>
   (reassurance_message \<in> set (generate_recommendations rt rs) \<longrightarrow>
      generate_recommendations rt rs = [reassurance_message]) \<and>
   ((reassurance_message \<in> set (generate_recommendations rt
        (self_scan_results (collect_results rt env dir new_generator)))) =
      (total_of ''CRITICAL'' (self_scan_results (collect_results rt env dir new_generator)) = 0 \<and>
       total_of ''HIGH'' (self_scan_results (collect_results rt env dir new_generator)) = 0 \<and>
       has_semgrep rt (self_scan_results (collect_results rt env dir new_generator))))"
proof (intro conjI impI)
  show "(reassurance_message \<in> set (generate_recommendations rt rs)) =
      (\<not> 0 < total_of ''CRITICAL'' rs \<and> \<not> 0 < total_of ''HIGH'' rs \<and> has_semgrep rt rs)"
    by (rule recommendations_reassurance)
next
  assume "reassurance_message \<in> set (generate_recommendations rt rs)"
  then show "generate_recommendations rt rs = [reassurance_message]"
    by (rule recommendations_only_reassurance)
next
  let ?rs = "self_scan_results (collect_results rt env dir new_generator)"
  have c: "list_all collected ?rs"
    by (rule collect_results_new_collected)
  have "0 \<le> total_of ''CRITICAL'' ?rs" "0 \<le> total_of ''HIGH'' ?rs"
    using c by (rule total_of_collected_nonneg)+
  then have "(\<not> 0 < total_of ''CRITICAL'' ?rs) = (total_of ''CRITICAL'' ?rs = 0)"
    "(\<not> 0 < total_of ''HIGH'' ?rs) = (total_of ''HIGH'' ?rs = 0)"
    by arith+
  then show "(reassurance_message \<in> set (generate_recommendations rt ?rs)) =
      (total_of ''CRITICAL'' ?rs = 0 \<and> total_of ''HIGH'' ?rs = 0 \<and> has_semgrep rt ?rs)"
    by (simp add: recommendations_reassurance)
qed

theorem C6_reassurance_alone_witness:
  "total_of ''CRITICAL'' (self_scan_results (collect_results ascii_runtime sample_env quiet_dir new_generator)) = 0 \<and>
   total_of ''HIGH'' (self_scan_results (collect_results ascii_runtime sample_env quiet_dir new_generator)) = 0 \<and>
   has_semgrep ascii_runtime (self_scan_results (collect_results ascii_runtime sample_env quiet_dir new_generator)) \<and>
   reassurance_message \<in> set (generate_recommendations ascii_runtime
     (self_scan_results (collect_results ascii_runtime sample_env quiet_dir new_generator))) \<and>
   generate_recommendations ascii_runtime
     (self_scan_results (collect_results ascii_runtime sample_env quiet_dir new_generator)) =
     [reassurance_message] \<and>
   generate_recommendations ascii_runtime (self_scan_results sample_generator) =
     [critical_message ascii_runtime 1, high_message ascii_runtime 1] \<and>
   reassurance_message \<notin> set (generate_recommendations ascii_runtime (self_scan_results sample_generator))"
proof -
  let ?rs = "self_scan_results (collect_results ascii_runtime sample_env quiet_dir new_generator)"
  have a: "total_of ''CRITICAL'' ?rs = 0" "total_of ''HIGH'' ?rs = 0" "has_semgrep ascii_runtime ?rs"
    by code_simp+
  have b: "reassurance_message \<in> set (generate_recommendations ascii_runtime ?rs)"
    using a C6_reassurance_alone [of ascii_runtime ?rs sample_env quiet_dir] by simp
  have c: "generate_recommendations ascii_runtime ?rs = [reassurance_message]"
    using b C6_reassurance_alone [of ascii_runtime ?rs sample_env quiet_dir] by blast
  have d: "0 < total_of ''CRITICAL'' (self_scan_results sample_generator)"
    by code_simp
  have e: "reassurance_message \<notin> set (generate_recommendations ascii_runtime (self_scan_results sample_generator))"
    using d C6_reassurance_alone [of ascii_runtime "self_scan_results sample_generator" sample_env quiet_dir]
    by blast
  have f: "generate_recommendations ascii_runtime (self_scan_results sample_generator) =
     [critical_message ascii_runtime 1, high_message ascii_runtime 1]"
    by code_simp
  show ?thesis using a b c e f by simp
qed

section \<open>The human-readable document\<close>

lemma vuln_lines_append:
  "vuln_lines rt v lines =
     (case vuln_lines rt v [] of Inl e \<Rightarrow> Inl e | Inr b \<Rightarrow> Inr (lines @ b))"
  by (simp add: vuln_lines_def Let_def bnd_def split: sum.splits)

lemma vuln_lines_ok:
  "remediation_ok v \<Longrightarrow> vuln_lines rt v lines = Inr (lines @ finding_block rt v)"
  by (cases "remediation v")
     (simp_all add: remediation_ok_def finding_block_def vuln_lines_def Let_def bnd_def)

lemma vuln_lines_Inr:
  "vuln_lines rt v lines = Inr out \<Longrightarrow> out = lines @ finding_block rt v"
  using vuln_lines_append [of rt v lines]
  by (auto simp: finding_block_def split: sum.splits)

lemma listed_lines_Inr:
  "listed_lines rt vs lines = Inr out \<Longrightarrow> out = lines @ concat (map (finding_block rt) vs)"
proof (induction vs arbitrary: lines)
  case Nil
  then show ?case by simp
next
  case (Cons v vs)
  from Cons.prems obtain mid where
    m: "vuln_lines rt v lines = Inr mid" "listed_lines rt vs mid = Inr out"
    by (auto simp: bnd_Inr)
  from m(1) have "mid = lines @ finding_block rt v" by (rule vuln_lines_Inr)
  with Cons.IH [OF m(2)] show ?case by simp
qed

lemma listed_lines_ok:
  "list_all remediation_ok vs \<Longrightarrow>
     listed_lines rt vs lines = Inr (lines @ concat (map (finding_block rt) vs))"
  by (induction vs arbitrary: lines) (simp_all add: vuln_lines_ok bnd_def)

lemma map_of_group_add:
  "map_of (group_add d k v) s =
     (if s = k then Some ((case map_of d k of None \<Rightarrow> [] | Some vs \<Rightarrow> vs) @ [v]) else map_of d s)"
  by (induction d) auto

lemma group_get_group_add:
  "group_get (group_add d k v) s = group_get d s @ (if s = k then [v] else [])"
  by (simp add: group_get_def map_of_group_add split: option.splits)

lemma group_get_fold:
  "group_get (fold (\<lambda>vuln d. group_add d (severity vuln) vuln) vs d) s =
     group_get d s @ filter (\<lambda>v. severity v = s) vs"
  by (induction vs arbitrary: d) (simp_all add: group_get_group_add)

lemma group_get_by_severity:
  "group_get (by_severity vs) s = filter (\<lambda>v. severity v = s) vs"
  unfolding by_severity_def group_get_fold by (simp add: group_get_def)

lemma severity_lines_Inr:
  "severity_lines rt groups sev lines = Inr out \<Longrightarrow>
     out = lines @ spec_group_block rt sev (group_get groups sev)"
  by (auto simp: severity_lines_def Let_def spec_group_block_def bnd_Inr
           dest!: listed_lines_Inr split: if_splits)

lemma severity_lines_ok:
  "list_all remediation_ok (group_get groups sev) \<Longrightarrow>
     severity_lines rt groups sev lines =
       Inr (lines @ spec_group_block rt sev (group_get groups sev))"
proof -
  assume "list_all remediation_ok (group_get groups sev)"
  then have "list_all remediation_ok (take 10 (group_get groups sev))"
    by (auto simp: list_all_iff dest: in_set_takeD)
  then show ?thesis
    by (simp add: severity_lines_def Let_def spec_group_block_def listed_lines_ok bnd_def)
qed

lemma severities_lines_Inr:
  "severities_lines rt groups sevs lines = Inr out \<Longrightarrow>
     out = lines @ concat (map (\<lambda>sev. spec_group_block rt sev (group_get groups sev)) sevs)"
proof (induction sevs arbitrary: lines)
  case Nil
  then show ?case by simp
next
  case (Cons sev sevs)
  from Cons.prems obtain mid where
    m: "severity_lines rt groups sev lines = Inr mid" "severities_lines rt groups sevs mid = Inr out"
    by (auto simp: bnd_Inr)
  from m(1) have "mid = lines @ spec_group_block rt sev (group_get groups sev)"
    by (rule severity_lines_Inr)
  with Cons.IH [OF m(2)] show ?case by simp
qed

lemma severities_lines_ok:
  "\<forall>sev \<in> set sevs. list_all remediation_ok (group_get groups sev) \<Longrightarrow>
     severities_lines rt groups sevs lines =
       Inr (lines @ concat (map (\<lambda>sev. spec_group_block rt sev (group_get groups sev)) sevs))"
  by (induction sevs arbitrary: lines) (simp_all add: severity_lines_ok bnd_def)

lemma spec_section_order:
  "spec_section rt r =
     [''### '' @ scanner r, '''']
     @ (if vulnerabilities r = [] then [''No vulnerabilities found.'', '''']
        else concat (map (\<lambda>sev. spec_group_block rt sev
                            (group_get (by_severity (vulnerabilities r)) sev))
                      SEVERITY_ORDER))"
  by (simp add: spec_section_def SEVERITY_ORDER_def group_get_by_severity)

lemma result_lines_Inr:
  assumes "result_lines rt r lines = Inr out"
  shows "out = lines @ spec_section rt r"
proof (cases "vulnerabilities r = []")
  case True
  with assms show ?thesis
    by (auto simp: result_lines_def Let_def spec_section_order)
next
  case False
  with assms have "severities_lines rt (by_severity (vulnerabilities r)) SEVERITY_ORDER
      ((lines @ [''### '' @ scanner r]) @ ['''']) = Inr out"
    by (simp add: result_lines_def Let_def)
  from severities_lines_Inr [OF this] False show ?thesis
    by (simp add: spec_section_order)
qed

lemma result_lines_ok:
  assumes "list_all remediation_ok (vulnerabilities r)"
  shows "result_lines rt r lines = Inr (lines @ spec_section rt r)"
proof (cases "vulnerabilities r = []")
  case True
  then show ?thesis
    by (simp add: result_lines_def Let_def spec_section_order)
next
  case False
  have "\<forall>sev \<in> set SEVERITY_ORDER.
          list_all remediation_ok (group_get (by_severity (vulnerabilities r)) sev)"
    using assms by (simp add: group_get_by_severity list_all_iff)
  from severities_lines_ok [OF this] False show ?thesis
    by (simp add: result_lines_def Let_def spec_section_order)
qed

lemma results_lines_Inr:
  "results_lines rt rs lines = Inr out \<Longrightarrow> out = lines @ concat (map (spec_section rt) rs)"
proof (induction rs arbitrary: lines)
  case Nil
  then show ?case by simp
next
  case (Cons r rs)
  from Cons.prems obtain mid where
    m: "result_lines rt r lines = Inr mid" "results_lines rt rs mid = Inr out"
    by (auto simp: bnd_Inr)
  from m(1) have "mid = lines @ spec_section rt r" by (rule result_lines_Inr)
  with Cons.IH [OF m(2)] show ?case by simp
qed

lemma results_lines_ok:
  "\<forall>r \<in> set rs. list_all remediation_ok (vulnerabilities r) \<Longrightarrow>
     results_lines rt rs lines = Inr (lines @ concat (map (spec_section rt) rs))"
  by (induction rs arbitrary: lines) (simp_all add: result_lines_ok bnd_def)

lemma fold_append_each: "fold (\<lambda>x ls. ls @ [f x]) xs lines = lines @ map f xs"
  by (induction xs arbitrary: lines) simp_all

lemma markdown_prefix:
  "recommendation_lines R (summary_table rt R (header_lines R) @ ['''', ''## Recommendations'', ''''])
     @ ['''', ''## Detailed Findings'', ''''] @ concat (map (spec_section rt) (scan_results R)) =
   spec_document rt R"
  by (simp add: recommendation_lines_def summary_table_def fold_append_each spec_document_def
        SEVERITY_ORDER_def)

lemma markdown_lines_Inr:
  assumes "markdown_lines rt R = Inr out"
  shows "out = spec_document rt R"
proof -
  from assms have "out =
    (recommendation_lines R (summary_table rt R (header_lines R) @ ['''', ''## Recommendations'', ''''])
       @ ['''', ''## Detailed Findings'', '''']) @ concat (map (spec_section rt) (scan_results R))"
    unfolding markdown_lines_def by (rule results_lines_Inr)
  then show ?thesis using markdown_prefix [of R rt] by simp
qed

lemma markdown_lines_ok:
  assumes "\<forall>r \<in> set (scan_results R). list_all remediation_ok (vulnerabilities r)"
  shows "markdown_lines rt R = Inr (spec_document rt R)"
proof -
  have "markdown_lines rt R = Inr (
    (recommendation_lines R (summary_table rt R (header_lines R) @ ['''', ''## Recommendations'', ''''])
       @ ['''', ''## Detailed Findings'', '''']) @ concat (map (spec_section rt) (scan_results R)))"
    unfolding markdown_lines_def using assms by (rule results_lines_ok)
  then show ?thesis using markdown_prefix [of R rt] by simp
qed

text \<open>
  Claim C9. Whenever \<open>output_markdown\<close> returns, what it returns is the document of the
  specification: the summary table has exactly the five rows CRITICAL, HIGH, MEDIUM, LOW,
  INFO in this order, whatever severities occur, and every group lists the first ten of
  its findings, followed by the line that counts the others exactly when the group has
  more than ten. It returns for every report whose remediations can be printed, which
  holds of every remediation that is a string.
\<close>

theorem C9_markdown_layout:
  "(output_markdown rt R = Inr out \<longrightarrow> out = join_lines (spec_document rt R)) \<and>
   ((\<forall>r \<in> set (scan_results R). list_all remediation_ok (vulnerabilities r)) \<longrightarrow>
      output_markdown rt R = Inr (join_lines (spec_document rt R)))"
proof (intro conjI impI)
  assume "output_markdown rt R = Inr out"
  then obtain ls where "markdown_lines rt R = Inr ls" "out = join_lines ls"
    by (auto simp: output_markdown_def bnd_Inr)
  then show "out = join_lines (spec_document rt R)"
    using markdown_lines_Inr by blast
next
  assume "\<forall>r \<in> set (scan_results R). list_all remediation_ok (vulnerabilities r)"
  then show "output_markdown rt R = Inr (join_lines (spec_document rt R))"
    by (simp add: output_markdown_def markdown_lines_ok bnd_def)
qed


theorem C9_markdown_layout_witness:
  "list_all (\<lambda>r. list_all remediation_ok (vulnerabilities r)) (scan_results crowded_report) \<and>
   map (\<lambda>r. length (vulnerabilities r)) (scan_results crowded_report) = [12] \<and>
   output_markdown ascii_runtime crowded_report =
     Inr (join_lines (spec_document ascii_runtime crowded_report)) \<and>
   markdown_lines ascii_runtime crowded_report = Inr (
     [''# Security Scan Report'', '''', ''**Generated:** 2024-05-01T12:00:01'',
      ''**Repository:** acme/shop'', ''**Branch:** main'', ''**Commit:** 01234567'', '''',
      ''## Summary'', '''', ''| Severity | Count |'', ''|----------|-------|'',
      ''| CRITICAL | 0 |'', ''| HIGH | 0 |'', ''| MEDIUM | 0 |'', ''| LOW | 12 |'', ''| INFO | 0 |'',
      '''', ''## Recommendations'', '''',
      ''- Consider enabling SAST scanning with Semgrep for code analysis.'',
      '''', ''## Detailed Findings'', '''',
      ''### trivy-trivy-image'', '''', ''#### LOW (12)'', '''']
     @ concat (replicate 10
         [''- **CVE-2024-0003** (CVE-2024-0003)'', ''  - File: `alpine:3.18`:0'',
          ''  - Fix: Update busybox to N/A'', ''''])
     @ [''  *...and 2 more*'', ''''])"
proof -
  have a: "list_all (\<lambda>r. list_all remediation_ok (vulnerabilities r)) (scan_results crowded_report)"
    by code_simp
  have b: "map (\<lambda>r. length (vulnerabilities r)) (scan_results crowded_report) = [12]"
    by code_simp
  have c: "output_markdown ascii_runtime crowded_report =
     Inr (join_lines (spec_document ascii_runtime crowded_report))"
    using a C9_markdown_layout [of ascii_runtime crowded_report]
    unfolding list_all_iff by blast
  have d: "markdown_lines ascii_runtime crowded_report = Inr (
     [''# Security Scan Report'', '''', ''**Generated:** 2024-05-01T12:00:01'',
      ''**Repository:** acme/shop'', ''**Branch:** main'', ''**Commit:** 01234567'', '''',
      ''## Summary'', '''', ''| Severity | Count |'', ''|----------|-------|'',
      ''| CRITICAL | 0 |'', ''| HIGH | 0 |'', ''| MEDIUM | 0 |'', ''| LOW | 12 |'', ''| INFO | 0 |'',
      '''', ''## Recommendations'', '''',
      ''- Consider enabling SAST scanning with Semgrep for code analysis.'',
      '''', ''## Detailed Findings'', '''',
      ''### trivy-trivy-image'', '''', ''#### LOW (12)'', '''']
     @ concat (replicate 10
         [''- **CVE-2024-0003** (CVE-2024-0003)'', ''  - File: `alpine:3.18`:0'',
          ''  - Fix: Update busybox to N/A'', ''''])
     @ [''  *...and 2 more*'', ''''])"
    by code_simp
  show ?thesis using a b c d by simp
qed

section \<open>Severities outside the five\<close>















end
